theory Spec2Isabelle
  imports Main "HOL-Library.Word"
begin

section \<open>Python values, exceptions and the outside world\<close>

text \<open>
  The pipeline talks to three remote services: the DBFS REST API (through
  \<open>requests.post\<close>), the Databricks SQL connector (\<open>connect\<close>, \<open>cursor.execute\<close>)
  and BigQuery (\<open>extract_table\<close>). Every such call is recorded as an event of a
  trace; what the service answers is read from an environment, which sees the
  whole trace up to and including the call it answers. Logger calls are events
  of the same trace.
\<close>

type_synonym byte = "8 word"

text \<open>
  Exceptions. The classes the code raises or catches by name have a constructor each;
  every other class is \<open>OtherException cls msg\<close>.
\<close>

datatype exn =
    ValueError string
  | TypeError string
  | KeyError string
  | OtherException string string

text \<open>\<open>str(e)\<close>: the message; for a \<open>KeyError\<close> the repr of the key.\<close>

fun exn_str :: "exn \<Rightarrow> string" where
  "exn_str (ValueError m) = m"
| "exn_str (TypeError m) = m"
| "exn_str (KeyError k) = [CHR 0x27] @ k @ [CHR 0x27]"
| "exn_str (OtherException c m) = m"

text \<open>
  The scalars that reach the \<open>pd.isna\<close> test, and the row values. A float is
  identified by its \<open>repr\<close> (\<open>''nan''\<close> is the NaN, \<open>''inf''\<close> and \<open>''-inf''\<close> the
  infinities). A scalar of any other class, one that \<open>json\<close> serialises only through
  \<open>default\<close> (a \<open>Timestamp\<close>, a \<open>Decimal\<close>, \<open>NaT\<close>), is \<open>SObject na s\<close>: \<open>na\<close> is what
  \<open>if pd.isna(val)\<close> does with it and \<open>s\<close> is \<open>str(val)\<close>. A numpy array is given by
  its \<open>tolist()\<close> and its \<open>str\<close>. A dict has string keys. A string is a list of code
  points below 256.
\<close>

datatype isna_result = Isna_True | Isna_False | Isna_Raises exn

datatype scalar =
    SBool bool
  | SInt int
  | SFloat string
  | SStr string
  | SObject isna_result string

datatype pyval =
    PNone
  | PScalar scalar
  | PList "pyval list"
  | PDict "(string \<times> pyval) list"
  | PNdarray "pyval list" string

text \<open>
  A DataFrame: the column labels, \<open>str(dtype)\<close> of each column, and the rows.
  \<open>len(df)\<close> is the number of rows.
\<close>

record dataframe =
  columns :: "string list"
  dtypes :: "string list"
  rows :: "pyval list list"

datatype jval = JStr string | JBool bool | JNum int | JNull

type_synonym jobj = "(string \<times> jval) list"

text \<open>
  The log records of the modules, one constructor for each logger call, carrying
  the values the message interpolates.
\<close>

datatype log_msg =
    Info_uploader_initialized string
  | Info_uploading_to_dbfs nat string
  | Info_file_size nat
  | Info_uploaded_to_dbfs string
  | Info_uploaded_bytes nat nat
  | Info_writing_delta nat string string
  | Info_uploading_staging
  | Info_table_created_overwrite string
  | Info_appended string
  | Info_table_created_new string
  | Info_writing_sql_insert nat string
  | Info_dataframe_empty
  | Info_inserted_batch nat nat
  | Info_wrote_rows nat string
  | Info_executing_query string
  | Info_query_completed nat
  | Error_query_failed string
  | Info_found_tables_in nat string
  | Info_rule
  | Info_title
  | Info_connecting_bigquery
  | Info_listing_tables "string option"
  | Warning_no_tables
  | Info_found_tables nat "string list"
  | Info_connecting_databricks
  | Info_dashes
  | Info_processing nat nat string
  | Info_extracting
  | Info_extracted nat nat
  | Info_skip_empty
  | Info_uploading_table string
  | Info_uploaded_ok
  | Error_processing string string
  | Info_completed
  | Info_success_count nat nat
  | Info_error_count nat nat
  | Info_failed_header
  | Info_failed_table string string

text \<open>
  The calls that leave the process: an HTTP request (URL, headers, JSON body), the
  opening of a SQL connection (server hostname, HTTP path, access token), a SQL
  statement, the construction of the BigQuery client, the listing of a dataset's
  tables and a BigQuery query; and the log records.
\<close>

datatype event =
    HttpPost string "(string \<times> string) list" jobj
  | SqlConnect string string string
  | SqlExecute string
  | BqInit
  | BqListTables string
  | BqQuery string
  | Log log_msg

type_synonym trace = "event list"

text \<open>
  A \<open>requests\<close> response, by what its two methods used here do:
  \<open>raise_for_status()\<close> raises or returns, \<open>json()\<close> raises or gives the body's object.
\<close>

record response =
  raise_for_status :: "exn option"
  json :: "exn + jobj"

text \<open>The fields of a \<open>BigQueryExtractor\<close> that the pipeline reads.\<close>

record extractor =
  project_id :: string
  dataset :: "string option"

text \<open>
  The environment. \<open>http\<close>, \<open>sql_connect\<close>, \<open>sql_execute\<close> and the \<open>bq_\<close> fields answer
  the last event of the trace they are given (\<open>Inl\<close>/\<open>Some\<close>: the call raises);
  \<open>bq_init\<close> is \<open>BigQueryExtractor()\<close>, \<open>bq_query\<close> is
  \<open>client.query(query).to_dataframe()\<close>. \<open>to_parquet\<close> and \<open>to_csv\<close> are the
  DataFrame serialisers (pyarrow, pandas); \<open>to_csv\<close> gives the UTF-8 bytes of the text.
  Closing the cursor and the connection at the end of a \<open>with\<close> block is not recorded.
\<close>

record env =
  http :: "trace \<Rightarrow> exn + response"
  sql_connect :: "trace \<Rightarrow> exn option"
  sql_execute :: "trace \<Rightarrow> exn option"
  bq_init :: "trace \<Rightarrow> exn + extractor"
  bq_list_tables :: "trace \<Rightarrow> exn + string list"
  bq_query :: "trace \<Rightarrow> exn + dataframe"
  to_parquet :: "dataframe \<Rightarrow> exn + byte list"
  to_csv :: "dataframe \<Rightarrow> exn + byte list"

section \<open>databricks\_upload.py: the DBFS upload\<close>

text \<open>The fields \<open>__init__\<close> sets on a \<open>DatabricksUploader\<close>.\<close>

record uploader =
  host :: string
  token :: string
  http_path :: string
  catalog :: string
  schema :: string
  headers :: "(string \<times> string) list"

text \<open>\<open>requests.post(url, headers=..., json=...)\<close>.\<close>

definition post :: "env \<Rightarrow> string \<Rightarrow> (string \<times> string) list \<Rightarrow> jobj \<Rightarrow> trace
    \<Rightarrow> (exn + response) \<times> trace" where
  "post e u h j tr = (let tr' = tr @ [HttpPost u h j] in (http e tr', tr'))"

text \<open>\<open>base64.standard_b64encode(...).decode("utf-8")\<close> (RFC 4648, with padding).\<close>

definition b64_alphabet :: string where
  "b64_alphabet = ''ABCDEFGHIJKLMNOPQRSTUVWXYZabcdefghijklmnopqrstuvwxyz0123456789+/''"

definition b64_char :: "nat \<Rightarrow> char" where
  "b64_char n = b64_alphabet ! (n mod 64)"

fun standard_b64encode :: "byte list \<Rightarrow> string" where
  "standard_b64encode (a # b # c # rest) =
     (let n = unat a * 65536 + unat b * 256 + unat c
      in [b64_char (n div 262144), b64_char (n div 4096), b64_char (n div 64), b64_char n]
         @ standard_b64encode rest)"
| "standard_b64encode [a, b] =
     (let n = unat a * 1024 + unat b * 4
      in [b64_char (n div 4096), b64_char (n div 64), b64_char n, CHR ''=''])"
| "standard_b64encode [a] =
     (let n = unat a * 16
      in [b64_char (n div 64), b64_char n, CHR ''='', CHR ''=''])"
| "standard_b64encode [] = []"

text \<open>\<open>_dbfs_put\<close>: one request with the whole payload.\<close>

definition dbfs_put :: "env \<Rightarrow> uploader \<Rightarrow> string \<Rightarrow> byte list \<Rightarrow> trace
    \<Rightarrow> (exn + unit) \<times> trace" where
  "dbfs_put e self dbfs_path file_bytes tr =
     (let encoded = standard_b64encode file_bytes in
      case post e (host self @ ''/api/2.0/dbfs/put'') (headers self)
             [(''path'', JStr dbfs_path), (''contents'', JStr encoded),
              (''overwrite'', JBool True)] tr of
        (Inl x, tr1) \<Rightarrow> (Inl x, tr1)
      | (Inr response, tr1) \<Rightarrow>
          (case raise_for_status response of
             Some x \<Rightarrow> (Inl x, tr1)
           | None \<Rightarrow> (Inr (), tr1)))"

text \<open>
  The \<open>while offset < len(file_bytes)\<close> loop of \<open>_dbfs_stream_upload\<close>. With
  \<open>chunk_size = 0\<close> and a service that accepts every block the loop never ends:
  the result is \<open>None\<close>. The slice \<open>file_bytes[offset : offset + chunk_size]\<close> is
  \<open>take chunk_size (drop offset file_bytes)\<close>.
\<close>

partial_function (option) add_blocks :: "env \<Rightarrow> uploader \<Rightarrow> jval \<Rightarrow> byte list \<Rightarrow> nat
    \<Rightarrow> nat \<Rightarrow> trace \<Rightarrow> ((exn + unit) \<times> trace) option" where
  "add_blocks e self handle file_bytes chunk_size offset tr =
     (if offset < length file_bytes then
        (let chunk = take chunk_size (drop offset file_bytes);
             encoded_chunk = standard_b64encode chunk
         in case post e (host self @ ''/api/2.0/dbfs/add-block'') (headers self)
                  [(''handle'', handle), (''data'', JStr encoded_chunk)] tr of
              (Inl x, tr1) \<Rightarrow> Some (Inl x, tr1)
            | (Inr response, tr1) \<Rightarrow>
                (case raise_for_status response of
                   Some x \<Rightarrow> Some (Inl x, tr1)
                 | None \<Rightarrow>
                     add_blocks e self handle file_bytes chunk_size (offset + chunk_size)
                       (tr1 @ [Log (Info_uploaded_bytes
                          (min (offset + chunk_size) (length file_bytes))
                          (length file_bytes))])))
      else Some (Inr (), tr))"

declare add_blocks.simps [code]

text \<open>The body of the \<open>try\<close>: the blocks, then the close request.\<close>

definition stream_try :: "env \<Rightarrow> uploader \<Rightarrow> jval \<Rightarrow> byte list \<Rightarrow> nat \<Rightarrow> trace
    \<Rightarrow> ((exn + unit) \<times> trace) option" where
  "stream_try e self handle file_bytes chunk_size tr =
     (case add_blocks e self handle file_bytes chunk_size 0 tr of
        None \<Rightarrow> None
      | Some (Inl x, tr1) \<Rightarrow> Some (Inl x, tr1)
      | Some (Inr u, tr1) \<Rightarrow>
          (case post e (host self @ ''/api/2.0/dbfs/close'') (headers self)
                  [(''handle'', handle)] tr1 of
             (Inl x, tr2) \<Rightarrow> Some (Inl x, tr2)
           | (Inr response, tr2) \<Rightarrow>
               (case raise_for_status response of
                  Some x \<Rightarrow> Some (Inl x, tr2)
                | None \<Rightarrow> Some (Inr (), tr2))))"

text \<open>
  \<open>_dbfs_stream_upload\<close>. The create request and the read of \<open>"handle"\<close> stand before
  the \<open>try\<close>. In the \<open>except\<close> clause the close request is posted and its response
  is dropped unread; the bare \<open>raise\<close> that follows is reached only when that post
  returns.
\<close>

definition dbfs_stream_upload :: "env \<Rightarrow> uploader \<Rightarrow> string \<Rightarrow> byte list \<Rightarrow> nat \<Rightarrow> trace
    \<Rightarrow> ((exn + unit) \<times> trace) option" where
  "dbfs_stream_upload e self dbfs_path file_bytes chunk_size tr =
     (case post e (host self @ ''/api/2.0/dbfs/create'') (headers self)
             [(''path'', JStr dbfs_path), (''overwrite'', JBool True)] tr of
        (Inl x, tr1) \<Rightarrow> Some (Inl x, tr1)
      | (Inr response, tr1) \<Rightarrow>
          (case raise_for_status response of
             Some x \<Rightarrow> Some (Inl x, tr1)
           | None \<Rightarrow>
               (case json response of
                  Inl x \<Rightarrow> Some (Inl x, tr1)
                | Inr obj \<Rightarrow>
                    (case map_of obj ''handle'' of
                       None \<Rightarrow> Some (Inl (KeyError ''handle''), tr1)
                     | Some handle \<Rightarrow>
                         (case stream_try e self handle file_bytes chunk_size tr1 of
                            None \<Rightarrow> None
                          | Some (Inr u, tr2) \<Rightarrow> Some (Inr (), tr2)
                          | Some (Inl x, tr2) \<Rightarrow>
                              (case post e (host self @ ''/api/2.0/dbfs/close'') (headers self)
                                      [(''handle'', handle)] tr2 of
                                 (Inl x', tr3) \<Rightarrow> Some (Inl x', tr3)
                               | (Inr response', tr3) \<Rightarrow> Some (Inl x, tr3)))))))"

text \<open>
  The size test of \<open>upload_to_dbfs\<close> and \<open>upload_to_delta_table\<close>; the streaming
  branch runs with the default \<open>chunk_size = 1024 * 1024\<close>.
\<close>

definition upload_bytes :: "env \<Rightarrow> uploader \<Rightarrow> string \<Rightarrow> byte list \<Rightarrow> trace
    \<Rightarrow> ((exn + unit) \<times> trace) option" where
  "upload_bytes e self dbfs_path file_bytes tr =
     (if length file_bytes \<le> 1 * 1024 * 1024
      then Some (dbfs_put e self dbfs_path file_bytes tr)
      else dbfs_stream_upload e self dbfs_path file_bytes (1024 * 1024) tr)"

section \<open>databricks\_upload.py: strings and SQL literals\<close>

text \<open>
  \<open>s.replace(old, new)\<close>, left to right without overlaps. Every call of the
  program passes a non-empty \<open>old\<close>; for an empty one the string is left as it is.
\<close>

function str_replace :: "string \<Rightarrow> string \<Rightarrow> string \<Rightarrow> string" where
  "str_replace old new [] = []"
| "str_replace old new (c # cs) =
     (if old \<noteq> [] \<and> take (length old) (c # cs) = old
      then new @ str_replace old new (drop (length old) (c # cs))
      else c # str_replace old new cs)"
  by pat_completeness auto
termination
  by (relation "measure (\<lambda>(old, new, s). length s)") (auto simp: Suc_le_eq)

text \<open>\<open>sep.join(xs)\<close>.\<close>

fun str_join :: "string \<Rightarrow> string list \<Rightarrow> string" where
  "str_join sep [] = []"
| "str_join sep [x] = x"
| "str_join sep (x # y # ys) = x @ sep @ str_join sep (y # ys)"

text \<open>\<open>str(n)\<close> of an integer: decimal digits, a minus sign before a negative one.\<close>

fun str_nat :: "nat \<Rightarrow> string" where
  "str_nat n =
     (if n < 10 then [''0123456789'' ! n]
      else str_nat (n div 10) @ [''0123456789'' ! (n mod 10)])"

declare str_nat.simps [simp del]

definition str_int :: "int \<Rightarrow> string" where
  "str_int i = (if i < 0 then ''-'' @ str_nat (nat (- i)) else str_nat (nat i))"

text \<open>\<open>sub in s\<close> for strings.\<close>

fun str_contains :: "string \<Rightarrow> string \<Rightarrow> bool" where
  "str_contains sub [] = (sub = [])"
| "str_contains sub (c # cs) = (take (length sub) (c # cs) = sub \<or> str_contains sub cs)"

text \<open>
  \<open>json.dumps(val, default=str)\<close>: separators \<open>", "\<close> and \<open>": "\<close>, \<open>ensure_ascii\<close>.
  A string is quoted, with the two-character escapes of JSON and \<open>\u00XX\<close> for every
  other code point outside \<open>' '..'~'\<close>.
\<close>

definition hex_digit :: "nat \<Rightarrow> char" where
  "hex_digit n = ''0123456789abcdef'' ! (n mod 16)"

definition json_escape_char :: "char \<Rightarrow> string" where
  "json_escape_char c =
     (if c = CHR 0x22 then [CHR 0x5C, CHR 0x22]
      else if c = CHR 0x5C then [CHR 0x5C, CHR 0x5C]
      else if c = CHR 0x0A then [CHR 0x5C, CHR ''n'']
      else if c = CHR 0x0D then [CHR 0x5C, CHR ''r'']
      else if c = CHR 0x09 then [CHR 0x5C, CHR ''t'']
      else if c = CHR 0x08 then [CHR 0x5C, CHR ''b'']
      else if c = CHR 0x0C then [CHR 0x5C, CHR ''f'']
      else if (32::nat) \<le> of_char c \<and> of_char c \<le> (126::nat) then [c]
      else [CHR 0x5C, CHR ''u'', CHR ''0'', CHR ''0'',
            hex_digit (of_char c div 16), hex_digit (of_char c)])"

definition json_string :: "string \<Rightarrow> string" where
  "json_string s = [CHR 0x22] @ concat (map json_escape_char s) @ [CHR 0x22]"

text \<open>A float in JSON: \<open>float.__repr__\<close>, but \<open>NaN\<close>, \<open>Infinity\<close> and \<open>-Infinity\<close>.\<close>

fun json_float :: "string \<Rightarrow> string" where
  "json_float r =
     (if r = ''nan'' then ''NaN''
      else if r = ''inf'' then ''Infinity''
      else if r = ''-inf'' then ''-Infinity''
      else r)"

fun json_scalar :: "scalar \<Rightarrow> string" where
  "json_scalar (SBool b) = (if b then ''true'' else ''false'')"
| "json_scalar (SInt i) = str_int i"
| "json_scalar (SFloat r) = json_float r"
| "json_scalar (SStr s) = json_string s"
| "json_scalar (SObject na s) = json_string s"

fun json_dumps :: "pyval \<Rightarrow> string" where
  "json_dumps PNone = ''null''"
| "json_dumps (PScalar v) = json_scalar v"
| "json_dumps (PList xs) = ''['' @ str_join '', '' (map json_dumps xs) @ '']''"
| "json_dumps (PDict kvs) =
     ''{'' @ str_join '', '' (map (\<lambda>(k, v). json_string k @ '': '' @ json_dumps v) kvs) @ ''}''"
| "json_dumps (PNdarray xs s) = json_string s"

text \<open>\<open>"'" + s.replace("'", "''") + "'"\<close>: the quoted SQL string literal.\<close>

definition sql_quote :: "string \<Rightarrow> string" where
  "sql_quote s = [CHR 0x27] @ str_replace [CHR 0x27] [CHR 0x27, CHR 0x27] s @ [CHR 0x27]"

text \<open>\<open>str(val)\<close> and the \<open>isinstance\<close> tests on a scalar; a \<open>bool\<close> is an \<open>int\<close>.\<close>

fun py_str :: "scalar \<Rightarrow> string" where
  "py_str (SBool b) = (if b then ''True'' else ''False'')"
| "py_str (SInt i) = str_int i"
| "py_str (SFloat r) = r"
| "py_str (SStr s) = s"
| "py_str (SObject na s) = s"

fun pd_isna :: "scalar \<Rightarrow> isna_result" where
  "pd_isna (SFloat r) = (if r = ''nan'' then Isna_True else Isna_False)"
| "pd_isna (SObject na s) = na"
| "pd_isna v = Isna_False"

fun isinstance_bool :: "scalar \<Rightarrow> bool" where
  "isinstance_bool (SBool b) = True"
| "isinstance_bool v = False"

fun isinstance_int_float :: "scalar \<Rightarrow> bool" where
  "isinstance_int_float (SBool b) = True"
| "isinstance_int_float (SInt i) = True"
| "isinstance_int_float (SFloat r) = True"
| "isinstance_int_float v = False"

fun isinstance_str :: "scalar \<Rightarrow> bool" where
  "isinstance_str (SStr s) = True"
| "isinstance_str v = False"

fun truth :: "scalar \<Rightarrow> bool" where
  "truth (SBool b) = b"
| "truth v = True"

text \<open>
  The tests on a scalar inside the \<open>try\<close>, from \<open>pd.isna(val)\<close> on: a \<open>ValueError\<close>
  or \<open>TypeError\<close> is caught and the value is written as its quoted \<open>str\<close>; any other
  exception leaves the writer.
\<close>

definition encode_scalar :: "scalar \<Rightarrow> exn + string" where
  "encode_scalar val =
     (case pd_isna val of
        Isna_Raises (ValueError m) \<Rightarrow> Inr (sql_quote (py_str val))
      | Isna_Raises (TypeError m) \<Rightarrow> Inr (sql_quote (py_str val))
      | Isna_Raises x \<Rightarrow> Inl x
      | Isna_True \<Rightarrow> Inr ''NULL''
      | Isna_False \<Rightarrow>
          (if isinstance_bool val then Inr (if truth val then ''TRUE'' else ''FALSE'')
           else if isinstance_int_float val then Inr (py_str val)
           else if isinstance_str val then Inr (sql_quote (py_str val))
           else Inr (sql_quote (py_str val))))"

text \<open>The value tests of \<open>write_with_sql_connector\<close>, in the order of the source.\<close>

fun encode_value :: "pyval \<Rightarrow> exn + string" where
  "encode_value PNone = Inr ''NULL''"
| "encode_value (PList xs) = Inr (sql_quote (json_dumps (PList xs)))"
| "encode_value (PDict kvs) = Inr (sql_quote (json_dumps (PDict kvs)))"
| "encode_value (PNdarray xs s) = Inr (sql_quote (json_dumps (PList xs)))"
| "encode_value (PScalar val) = encode_scalar val"

text \<open>The values of one row; the first exception ends the row.\<close>

fun encode_values :: "pyval list \<Rightarrow> exn + string list" where
  "encode_values [] = Inr []"
| "encode_values (val # vals) =
     (case encode_value val of
        Inl x \<Rightarrow> Inl x
      | Inr v \<Rightarrow> (case encode_values vals of Inl x \<Rightarrow> Inl x | Inr vs \<Rightarrow> Inr (v # vs)))"

text \<open>\<open>values_list\<close> of a batch: \<open>"(" + ", ".join(values) + ")"\<close> for each row.\<close>

fun encode_rows :: "pyval list list \<Rightarrow> exn + string list" where
  "encode_rows [] = Inr []"
| "encode_rows (row # batch) =
     (case encode_values row of
        Inl x \<Rightarrow> Inl x
      | Inr values \<Rightarrow>
          (case encode_rows batch of
             Inl x \<Rightarrow> Inl x
           | Inr values_list \<Rightarrow> Inr ((''('' @ str_join '', '' values @ '')'') # values_list)))"

section \<open>databricks\_upload.py: the uploader's methods\<close>




text \<open>\<open>s.rstrip(c)\<close> and \<open>s.strip(c)\<close> for one character.\<close>

definition rstrip :: "char \<Rightarrow> string \<Rightarrow> string" where
  "rstrip c s = rev (dropWhile (\<lambda>x. x = c) (rev s))"

definition strip :: "char \<Rightarrow> string \<Rightarrow> string" where
  "strip c s = dropWhile (\<lambda>x. x = c) (rstrip c s)"


text \<open>\<open>upload_to_dbfs\<close>.\<close>

definition upload_to_dbfs :: "env \<Rightarrow> uploader \<Rightarrow> dataframe \<Rightarrow> string \<Rightarrow> string \<Rightarrow> trace
    \<Rightarrow> ((exn + unit) \<times> trace) option" where
  "upload_to_dbfs e self df dbfs_path file_format tr =
     (let tr1 = tr @ [Log (Info_uploading_to_dbfs (length (rows df)) dbfs_path)];
          converted =
            (if file_format = ''parquet'' then to_parquet e df
             else if file_format = ''csv'' then to_csv e df
             else Inl (ValueError (''Unsupported format: '' @ file_format
                         @ ''. Use 'parquet' or 'csv'.'')))
      in case converted of
           Inl x \<Rightarrow> Some (Inl x, tr1)
         | Inr file_bytes \<Rightarrow>
             (case upload_bytes e self dbfs_path file_bytes
                     (tr1 @ [Log (Info_file_size (length file_bytes))]) of
                None \<Rightarrow> None
              | Some (Inl x, tr2) \<Rightarrow> Some (Inl x, tr2)
              | Some (Inr u, tr2) \<Rightarrow> Some (Inr (), tr2 @ [Log (Info_uploaded_to_dbfs dbfs_path)])))"

text \<open>\<open>databricks_sql.connect(...)\<close> and \<open>cursor.execute(sql)\<close>.\<close>

definition connect :: "env \<Rightarrow> uploader \<Rightarrow> trace \<Rightarrow> exn option \<times> trace" where
  "connect e self tr =
     (let tr' = tr @ [SqlConnect (str_replace ''https://'' [] (host self)) (http_path self)
                        (token self)]
      in (sql_connect e tr', tr'))"

definition execute :: "env \<Rightarrow> string \<Rightarrow> trace \<Rightarrow> exn option \<times> trace" where
  "execute e sql tr = (let tr' = tr @ [SqlExecute sql] in (sql_execute e tr', tr'))"

definition full_table_name_of :: "uploader \<Rightarrow> string \<Rightarrow> string" where
  "full_table_name_of self table_name = catalog self @ ''.'' @ schema self @ ''.'' @ table_name"

text \<open>
  The two triple-quoted statements of \<open>upload_to_delta_table\<close>, with the line breaks
  and the indentation of the source (\<open>ind\<close> spaces).
\<close>

definition create_parquet_sql :: "nat \<Rightarrow> string \<Rightarrow> string \<Rightarrow> string" where
  "create_parquet_sql ind full_table_name staging_path =
     [CHR 0x0A] @ replicate ind (CHR '' '') @ ''CREATE TABLE '' @ full_table_name
     @ [CHR 0x0A] @ replicate ind (CHR '' '') @ ''USING PARQUET''
     @ [CHR 0x0A] @ replicate ind (CHR '' '') @ ''LOCATION 'dbfs:'' @ staging_path @ [CHR 0x27]
     @ [CHR 0x0A] @ replicate ind (CHR '' '')"

definition insert_parquet_sql :: "nat \<Rightarrow> string \<Rightarrow> string \<Rightarrow> string" where
  "insert_parquet_sql ind full_table_name staging_path =
     [CHR 0x0A] @ replicate ind (CHR '' '') @ ''INSERT INTO '' @ full_table_name
     @ [CHR 0x0A] @ replicate ind (CHR '' '') @ ''SELECT * FROM parquet.`dbfs:'' @ staging_path
     @ ''`''
     @ [CHR 0x0A] @ replicate ind (CHR '' '')"

text \<open>
  The statements of \<open>upload_to_delta_table\<close> once the connection is open: the
  \<open>if mode == ...\<close> chain under the cursor. In append mode an exception of the
  \<open>DESCRIBE\<close> or of the \<open>INSERT\<close> is caught and the table is created.
\<close>

definition delta_statements :: "env \<Rightarrow> string \<Rightarrow> string \<Rightarrow> string \<Rightarrow> trace
    \<Rightarrow> (exn + unit) \<times> trace" where
  "delta_statements e full_table_name staging_path mode tr =
     (if mode = ''overwrite'' then
        (case execute e (''DROP TABLE IF EXISTS '' @ full_table_name) tr of
           (Some x, tr1) \<Rightarrow> (Inl x, tr1)
         | (None, tr1) \<Rightarrow>
             (case execute e (create_parquet_sql 24 full_table_name staging_path) tr1 of
                (Some x, tr2) \<Rightarrow> (Inl x, tr2)
              | (None, tr2) \<Rightarrow>
                  (Inr (), tr2 @ [Log (Info_table_created_overwrite full_table_name)])))
      else if mode = ''append'' then
        (let created = (\<lambda>tr3.
               case execute e (create_parquet_sql 28 full_table_name staging_path) tr3 of
                 (Some x, tr4) \<Rightarrow> (Inl x, tr4)
               | (None, tr4) \<Rightarrow> (Inr (), tr4 @ [Log (Info_table_created_new full_table_name)]))
         in case execute e (''DESCRIBE TABLE '' @ full_table_name) tr of
              (Some x, tr1) \<Rightarrow> created tr1
            | (None, tr1) \<Rightarrow>
                (case execute e (insert_parquet_sql 28 full_table_name staging_path) tr1 of
                   (Some x, tr2) \<Rightarrow> created tr2
                 | (None, tr2) \<Rightarrow> (Inr (), tr2 @ [Log (Info_appended full_table_name)])))
      else (Inl (ValueError (''Invalid mode: '' @ mode @ ''. Use 'overwrite' or 'append'.'')), tr))"

text \<open>
  \<open>upload_to_delta_table\<close>: the staging file goes to DBFS first, then the connection
  is opened, then the mode is looked at.
\<close>

definition upload_to_delta_table :: "env \<Rightarrow> uploader \<Rightarrow> dataframe \<Rightarrow> string \<Rightarrow> string
    \<Rightarrow> trace \<Rightarrow> ((exn + unit) \<times> trace) option" where
  "upload_to_delta_table e self df table_name mode tr =
     (let full_table_name = full_table_name_of self table_name;
          tr1 = tr @ [Log (Info_writing_delta (length (rows df)) full_table_name mode)]
      in case to_parquet e df of
           Inl x \<Rightarrow> Some (Inl x, tr1)
         | Inr file_bytes \<Rightarrow>
             (let staging_path = ''/FileStore/staging/'' @ table_name @ ''.parquet''
              in case upload_bytes e self staging_path file_bytes
                        (tr1 @ [Log Info_uploading_staging]) of
                   None \<Rightarrow> None
                 | Some (Inl x, tr2) \<Rightarrow> Some (Inl x, tr2)
                 | Some (Inr u, tr2) \<Rightarrow>
                     (case connect e self tr2 of
                        (Some x, tr3) \<Rightarrow> Some (Inl x, tr3)
                      | (None, tr3) \<Rightarrow>
                          Some (delta_statements e full_table_name staging_path mode tr3))))"

text \<open>\<open>_pandas_to_sql_type\<close>.\<close>

definition pandas_to_sql_type :: "string \<Rightarrow> string" where
  "pandas_to_sql_type dtype_str =
     (if str_contains ''int'' dtype_str then ''BIGINT''
      else if str_contains ''float'' dtype_str then ''DOUBLE''
      else if str_contains ''bool'' dtype_str then ''BOOLEAN''
      else if str_contains ''datetime'' dtype_str then ''TIMESTAMP''
      else ''STRING'')"

text \<open>\<open>range(0, stop, step)\<close> for a positive step.\<close>

definition py_range :: "nat \<Rightarrow> nat \<Rightarrow> nat list" where
  "py_range stop step = map (\<lambda>i. i * step) [0 ..< (stop + step - 1) div step]"

definition insert_sql_of :: "string \<Rightarrow> string list \<Rightarrow> string list \<Rightarrow> string" where
  "insert_sql_of full_table_name cols values_list =
     ''INSERT INTO '' @ full_table_name @ '' (''
     @ str_join '', '' (map (\<lambda>c. ''`'' @ c @ ''`'') cols)
     @ '') VALUES '' @ str_join '', '' values_list"

text \<open>
  The \<open>for start in range(0, len(df), batch_size)\<close> loop of
  \<open>write_with_sql_connector\<close>, over the list of its \<open>start\<close> values. The slice
  \<open>df.iloc[start : start + batch_size]\<close> is \<open>take batch_size (drop start (rows df))\<close>.
  An exception of the encoding or of \<open>cursor.execute\<close> leaves the loop at once.
\<close>

fun insert_batches :: "env \<Rightarrow> string \<Rightarrow> dataframe \<Rightarrow> nat \<Rightarrow> nat list \<Rightarrow> trace
    \<Rightarrow> (exn + unit) \<times> trace" where
  "insert_batches e full_table_name df batch_size [] tr = (Inr (), tr)"
| "insert_batches e full_table_name df batch_size (start # starts) tr =
     (let batch = take batch_size (drop start (rows df))
      in case encode_rows batch of
           Inl x \<Rightarrow> (Inl x, tr)
         | Inr values_list \<Rightarrow>
             (let insert_sql = insert_sql_of full_table_name (columns df) values_list
              in case execute e insert_sql tr of
                   (Some x, tr1) \<Rightarrow> (Inl x, tr1)
                 | (None, tr1) \<Rightarrow>
                     insert_batches e full_table_name df batch_size starts
                       (tr1 @ [Log (Info_inserted_batch (start div batch_size + 1)
                                      (length batch))])))"

text \<open>
  \<open>write_with_sql_connector\<close>. The mode is compared with \<open>"overwrite"\<close> only; there is
  no other test of it.
\<close>

definition batch_size :: nat where
  "batch_size = 1000"

definition write_with_sql_connector :: "env \<Rightarrow> uploader \<Rightarrow> dataframe \<Rightarrow> string \<Rightarrow> string
    \<Rightarrow> trace \<Rightarrow> (exn + unit) \<times> trace" where
  "write_with_sql_connector e self df table_name mode tr =
     (let full_table_name = full_table_name_of self table_name;
          tr0 = tr @ [Log (Info_writing_sql_insert (length (rows df)) full_table_name)]
      in case connect e self tr0 of
           (Some x, tr1) \<Rightarrow> (Inl x, tr1)
         | (None, tr1) \<Rightarrow>
             (let col_defs = map (\<lambda>(col_name, dtype).
                                 ''`'' @ col_name @ ''` '' @ pandas_to_sql_type dtype)
                               (zip (columns df) (dtypes df));
                  create_sql = ''CREATE TABLE IF NOT EXISTS '' @ full_table_name @ '' (''
                               @ str_join '', '' col_defs @ '')'';
                  dropped = (if mode = ''overwrite''
                             then execute e (''DROP TABLE IF EXISTS '' @ full_table_name) tr1
                             else (None, tr1))
              in case dropped of
                   (Some x, tr2) \<Rightarrow> (Inl x, tr2)
                 | (None, tr2) \<Rightarrow>
                     (case execute e create_sql tr2 of
                        (Some x, tr3) \<Rightarrow> (Inl x, tr3)
                      | (None, tr3) \<Rightarrow>
                          (if length (rows df) = 0
                           then (Inr (), tr3 @ [Log Info_dataframe_empty])
                           else
                             (case insert_batches e full_table_name df batch_size
                                     (py_range (length (rows df)) batch_size) tr3 of
                                (Inl x, tr4) \<Rightarrow> (Inl x, tr4)
                              | (Inr u, tr4) \<Rightarrow>
                                  (Inr (), tr4 @ [Log (Info_wrote_rows (length (rows df))
                                                         full_table_name)]))))))"

section \<open>bigquery\_extract.py\<close>

text \<open>
  \<open>extract_by_query\<close>: the query runs inside a \<open>try\<close>; an exception is logged and
  raised again.
\<close>

definition extract_by_query :: "env \<Rightarrow> string \<Rightarrow> trace \<Rightarrow> (exn + dataframe) \<times> trace" where
  "extract_by_query e query tr =
     (let tr1 = tr @ [Log (Info_executing_query query), BqQuery query]
      in case bq_query e tr1 of
           Inr df \<Rightarrow> (Inr df, tr1 @ [Log (Info_query_completed (length (rows df)))])
         | Inl x \<Rightarrow> (Inl x, tr1 @ [Log (Error_query_failed (exn_str x))]))"

text \<open>\<open>f"{v}"\<close> for a value that may be \<open>None\<close>.\<close>

fun format_opt :: "string option \<Rightarrow> string" where
  "format_opt None = ''None''"
| "format_opt (Some v) = v"

text \<open>\<open>extract_table\<close>; \<open>if limit:\<close> holds for a limit that is given and not zero.\<close>

definition extract_table :: "env \<Rightarrow> extractor \<Rightarrow> string \<Rightarrow> nat option \<Rightarrow> trace
    \<Rightarrow> (exn + dataframe) \<times> trace" where
  "extract_table e self table_name limit tr =
     (let full_table =
            (if \<not> str_contains ''.'' table_name
             then ''`'' @ project_id self @ ''.'' @ format_opt (dataset self) @ ''.''
                    @ table_name @ ''`''
             else ''`'' @ project_id self @ ''.'' @ table_name @ ''`'');
          query = ''SELECT * FROM '' @ full_table;
          query' = (case limit of
                      None \<Rightarrow> query
                    | Some n \<Rightarrow> if n \<noteq> 0 then query @ '' LIMIT '' @ str_nat n else query)
      in extract_by_query e query' tr)"


section \<open>run\_all.py\<close>

text \<open>
  The column names: \<open>re.sub(r'[^a-zA-Z0-9_]', '_', col).strip('_')\<close>, then the loop
  over the new names with the dictionary \<open>seen\<close>.
\<close>

definition word_char :: "char \<Rightarrow> bool" where
  "word_char c =
     (c \<in> set (''abcdefghijklmnopqrstuvwxyz'' @ ''ABCDEFGHIJKLMNOPQRSTUVWXYZ''
                @ ''0123456789'' @ ''_''))"

definition sanitize :: "string \<Rightarrow> string" where
  "sanitize col = strip (CHR ''_'') (map (\<lambda>c. if word_char c then c else CHR ''_'') col)"

fun rename_duplicates :: "(string \<rightharpoonup> nat) \<Rightarrow> string list \<Rightarrow> string list" where
  "rename_duplicates seen [] = []"
| "rename_duplicates seen (col # cols) =
     (case seen col of
        Some n \<Rightarrow>
          (col @ ''_'' @ str_nat (n + 1)) # rename_duplicates (seen(col \<mapsto> n + 1)) cols
      | None \<Rightarrow> col # rename_duplicates (seen(col \<mapsto> 0)) cols)"

definition sanitize_columns :: "string list \<Rightarrow> string list" where
  "sanitize_columns cols = rename_duplicates Map.empty (map sanitize cols)"

text \<open>
  The body of the \<open>try\<close> in the loop of \<open>main\<close>, for one table. Both ways out of it
  without an exception (the empty table's \<open>continue\<close> and the end of the upload)
  have added one to \<open>success_count\<close>.
\<close>

definition try_table :: "env \<Rightarrow> extractor \<Rightarrow> uploader \<Rightarrow> string \<Rightarrow> trace
    \<Rightarrow> (exn + unit) \<times> trace" where
  "try_table e extractor uploader table_name tr =
     (case extract_table e extractor table_name None (tr @ [Log Info_extracting]) of
        (Inl x, tr1) \<Rightarrow> (Inl x, tr1)
      | (Inr df, tr1) \<Rightarrow>
          (let tr2 = tr1 @ [Log (Info_extracted (length (rows df)) (length (columns df)))]
           in if length (rows df) = 0
              then (Inr (), tr2 @ [Log Info_skip_empty])
              else
                (let df' = df\<lparr>columns := sanitize_columns (columns df)\<rparr>
                 in case write_with_sql_connector e uploader df' table_name ''overwrite''
                           (tr2 @ [Log (Info_uploading_table table_name)]) of
                      (Inl x, tr3) \<Rightarrow> (Inl x, tr3)
                    | (Inr u, tr3) \<Rightarrow> (Inr (), tr3 @ [Log Info_uploaded_ok]))))"

text \<open>The counters of \<open>main\<close>.\<close>

record report =
  success_count :: nat
  error_count :: nat
  errors :: "(string \<times> string) list"

text \<open>
  \<open>for i, table_name in enumerate(tables, 1)\<close>: \<open>n\<close> is \<open>len(tables)\<close>. The
  \<open>except Exception as e\<close> clause logs the error and records it.
\<close>

fun process_tables :: "env \<Rightarrow> extractor \<Rightarrow> uploader \<Rightarrow> nat \<Rightarrow> nat \<Rightarrow> string list \<Rightarrow> report
    \<Rightarrow> trace \<Rightarrow> report \<times> trace" where
  "process_tables e extractor uploader n i [] rep tr = (rep, tr)"
| "process_tables e extractor uploader n i (table_name # tables) rep tr =
     (case try_table e extractor uploader table_name
             (tr @ [Log Info_dashes, Log (Info_processing i n table_name)]) of
        (Inr u, tr1) \<Rightarrow>
          process_tables e extractor uploader n (i + 1) tables
            (rep\<lparr>success_count := success_count rep + 1\<rparr>) tr1
      | (Inl x, tr1) \<Rightarrow>
          process_tables e extractor uploader n (i + 1) tables
            (rep\<lparr>errors := errors rep @ [(table_name, exn_str x)],
                 error_count := error_count rep + 1\<rparr>)
            (tr1 @ [Log (Error_processing table_name (exn_str x))]))"



section \<open>Vocabulary of the properties and example values\<close>

text \<open>
  The chunks of a payload: consecutive slices of \<open>n\<close> elements, the last one
  possibly shorter.
\<close>

function chunks :: "nat \<Rightarrow> 'a list \<Rightarrow> 'a list list" where
  "chunks n xs = (if n = 0 \<or> xs = [] then [] else take n xs # chunks n (drop n xs))"
  by pat_completeness auto

termination
  by (relation "measure (\<lambda>(n, xs). length xs)") auto

declare chunks.simps [simp del]


definition put_request :: "uploader \<Rightarrow> string \<Rightarrow> byte list \<Rightarrow> event" where
  "put_request self path bs = HttpPost (host self @ ''/api/2.0/dbfs/put'') (headers self)
     [(''path'', JStr path), (''contents'', JStr (standard_b64encode bs)), (''overwrite'', JBool True)]"

definition create_request :: "uploader \<Rightarrow> string \<Rightarrow> event" where
  "create_request self path = HttpPost (host self @ ''/api/2.0/dbfs/create'') (headers self)
     [(''path'', JStr path), (''overwrite'', JBool True)]"

definition add_block_request :: "uploader \<Rightarrow> jval \<Rightarrow> byte list \<Rightarrow> event" where
  "add_block_request self h chunk = HttpPost (host self @ ''/api/2.0/dbfs/add-block'') (headers self)
     [(''handle'', h), (''data'', JStr (standard_b64encode chunk))]"

definition close_request :: "uploader \<Rightarrow> jval \<Rightarrow> event" where
  "close_request self h = HttpPost (host self @ ''/api/2.0/dbfs/close'') (headers self) [(''handle'', h)]"

fun is_http :: "event \<Rightarrow> bool" where
  "is_http (HttpPost u h j) = True"
| "is_http _ = False"

definition http_posts :: "trace \<Rightarrow> trace" where
  "http_posts tr = filter is_http tr"

definition accepts_all :: "env \<Rightarrow> bool" where
  "accepts_all e = (\<forall>t. \<exists>r. http e t = Inr r \<and> raise_for_status r = None)"

text \<open>
  The outcome of the steps before the \<open>try\<close>, for the create request that ends
  the trace: the error that reaches the caller, or the handle.
\<close>

definition created_handle :: "env \<Rightarrow> trace \<Rightarrow> exn + jval" where
  "created_handle e t =
     (case http e t of
        Inl x \<Rightarrow> Inl x
      | Inr r \<Rightarrow>
          (case raise_for_status r of
             Some x \<Rightarrow> Inl x
           | None \<Rightarrow>
               (case json r of
                  Inl x \<Rightarrow> Inl x
                | Inr obj \<Rightarrow>
                    (case map_of obj ''handle'' of
                       None \<Rightarrow> Inl (KeyError ''handle'')
                     | Some h \<Rightarrow> Inr h))))"

text \<open>
  Example values: a response with status 200 and handle 7, a connection error, and
  a service whose \<open>k\<close>-th HTTP request raises it.
\<close>

definition ok_response :: response where
  "ok_response = \<lparr>raise_for_status = None, json = Inr [(''handle'', JNum 7)]\<rparr>"



text \<open>
  Example environments: \<open>base_env\<close> answers every call with success (a BigQuery
  dataset without tables, empty query results, empty serialised files);
  \<open>http_env h\<close> answers HTTP requests as \<open>h\<close> says.
\<close>

definition base_env :: env where
  "base_env =
     \<lparr>http = (\<lambda>t. Inr ok_response), sql_connect = (\<lambda>t. None), sql_execute = (\<lambda>t. None),
      bq_init = (\<lambda>t. Inr \<lparr>project_id = ''proj'', dataset = Some ''ds''\<rparr>),
      bq_list_tables = (\<lambda>t. Inr []),
      bq_query = (\<lambda>t. Inr \<lparr>columns = [], dtypes = [], rows = []\<rparr>),
      to_parquet = (\<lambda>d. Inr []), to_csv = (\<lambda>d. Inr [])\<rparr>"

definition http_env :: "(trace \<Rightarrow> exn + response) \<Rightarrow> env" where
  "http_env h = base_env\<lparr>http := h\<rparr>"

definition example_uploader :: uploader where
  "example_uploader =
     \<lparr>host = ''https://dbx'', token = ''tok'', http_path = ''/sql/1'', catalog = ''cat'',
      schema = ''sch'',
      headers = [(''Authorization'', ''Bearer tok''), (''Content-Type'', ''application/json'')]\<rparr>"

text \<open>The service that accepts every request.\<close>

definition accepting :: "trace \<Rightarrow> exn + response" where
  "accepting t = Inr ok_response"

text \<open>
  The SQL statements of a trace, in order; \<open>all_accepted e tr evs\<close>: when the events
  \<open>evs\<close> follow the trace \<open>tr\<close>, the service accepts each connection and each
  statement among them; the batches of a DataFrame.
\<close>

fun statements :: "trace \<Rightarrow> string list" where
  "statements [] = []"
| "statements (SqlExecute s # evs) = s # statements evs"
| "statements (ev # evs) = statements evs"

fun all_accepted :: "env \<Rightarrow> trace \<Rightarrow> trace \<Rightarrow> bool" where
  "all_accepted e tr [] = True"
| "all_accepted e tr (SqlExecute s # evs) =
     (sql_execute e (tr @ [SqlExecute s]) = None \<and> all_accepted e (tr @ [SqlExecute s]) evs)"
| "all_accepted e tr (SqlConnect h p t # evs) =
     (sql_connect e (tr @ [SqlConnect h p t]) = None \<and> all_accepted e (tr @ [SqlConnect h p t]) evs)"
| "all_accepted e tr (ev # evs) = all_accepted e (tr @ [ev]) evs"

definition batches :: "dataframe \<Rightarrow> pyval list list list" where
  "batches df = chunks batch_size (rows df)"




text \<open>
  The first events of \<open>write_with_sql_connector\<close>: the log record, the connection,
  the \<open>DROP\<close> in overwrite mode, the \<open>CREATE\<close>.
\<close>

definition connect_event :: "uploader \<Rightarrow> event" where
  "connect_event self =
     SqlConnect (str_replace ''https://'' [] (host self)) (http_path self) (token self)"

definition drop_sql :: "uploader \<Rightarrow> string \<Rightarrow> string" where
  "drop_sql self table_name = ''DROP TABLE IF EXISTS '' @ full_table_name_of self table_name"

definition create_sql :: "uploader \<Rightarrow> dataframe \<Rightarrow> string \<Rightarrow> string" where
  "create_sql self df table_name =
     ''CREATE TABLE IF NOT EXISTS '' @ full_table_name_of self table_name @ '' (''
     @ str_join '', '' (map (\<lambda>(col_name, dtype). ''`'' @ col_name @ ''` '' @ pandas_to_sql_type dtype)
                          (zip (columns df) (dtypes df)))
     @ '')''"

definition ddl_events :: "uploader \<Rightarrow> dataframe \<Rightarrow> string \<Rightarrow> string \<Rightarrow> trace" where
  "ddl_events self df table_name mode =
     [Log (Info_writing_sql_insert (length (rows df)) (full_table_name_of self table_name)),
      connect_event self]
     @ (if mode = ''overwrite'' then [SqlExecute (drop_sql self table_name)] else [])
     @ [SqlExecute (create_sql self df table_name)]"

text \<open>A \<open>DROP TABLE\<close> statement, and the statements of the writer before the rows.\<close>

definition is_drop :: "string \<Rightarrow> bool" where
  "is_drop s = (take 10 s = ''DROP TABLE'')"

definition ddl_statements :: "uploader \<Rightarrow> dataframe \<Rightarrow> string \<Rightarrow> string \<Rightarrow> string list" where
  "ddl_statements self df table_name mode =
     (if mode = ''overwrite'' then [drop_sql self table_name] else [])
     @ [create_sql self df table_name]"

definition delta_create_sql :: "nat \<Rightarrow> uploader \<Rightarrow> string \<Rightarrow> string" where
  "delta_create_sql ind self table_name =
     create_parquet_sql ind (full_table_name_of self table_name)
       (''/FileStore/staging/'' @ table_name @ ''.parquet'')"

text \<open>Example data: a DataFrame of two rows.\<close>

definition example_df :: dataframe where
  "example_df =
     \<lparr>columns = [''id'', ''name''], dtypes = [''int64'', ''object''],
      rows = [[PScalar (SInt 1), PScalar (SStr ''a'b'')], [PScalar (SInt 2), PNone]]\<rparr>"

text \<open>
  Example values: a database error, a SQL service whose \<open>k\<close>-th statement raises it,
  and the \<open>INSERT\<close> statement of the example DataFrame.
\<close>

definition database_error :: exn where
  "database_error = OtherException ''DatabaseError'' ''statement failed''"

definition failing_statement :: "nat \<Rightarrow> trace \<Rightarrow> exn option" where
  "failing_statement k t = (if length (statements t) = k then Some database_error else None)"

definition sql_env :: "(trace \<Rightarrow> exn option) \<Rightarrow> env" where
  "sql_env x = base_env\<lparr>sql_execute := x\<rparr>"

definition example_insert :: string where
  "example_insert = ''INSERT INTO cat.sch.t (`id`, `name`) VALUES (1, 'a'' @ [CHR 0x27, CHR 0x27] @ ''b'), (2, NULL)''"

text \<open>Example data: a DataFrame with two columns and no rows.\<close>

definition empty_df :: dataframe where
  "empty_df = \<lparr>columns = [''id'', ''name''], dtypes = [''int64'', ''object''], rows = []\<rparr>"

text \<open>
  The query \<open>extract_table\<close> builds for a table, the events of \<open>try_table\<close> up to the
  query, and the queries of a trace.
\<close>

definition table_query :: "extractor \<Rightarrow> string \<Rightarrow> string" where
  "table_query self table_name =
     ''SELECT * FROM '' @
       (if \<not> str_contains ''.'' table_name
        then ''`'' @ project_id self @ ''.'' @ format_opt (dataset self) @ ''.'' @ table_name @ ''`''
        else ''`'' @ project_id self @ ''.'' @ table_name @ ''`'')"

definition query_events :: "extractor \<Rightarrow> string \<Rightarrow> trace" where
  "query_events self table_name =
     [Log Info_extracting, Log (Info_executing_query (table_query self table_name)),
      BqQuery (table_query self table_name)]"

fun queries :: "trace \<Rightarrow> string list" where
  "queries [] = []"
| "queries (BqQuery q # evs) = q # queries evs"
| "queries (ev # evs) = queries evs"

text \<open>
  Example values: a BigQuery dataset with the tables \<open>A\<close>, \<open>B\<close>, \<open>C\<close>, in which the
  query of \<open>B\<close> raises and the other two return the example DataFrame; the
  configuration of the example uploader; the number of SQL connections of a trace.
\<close>

definition example_extractor :: extractor where
  "example_extractor = \<lparr>project_id = ''proj'', dataset = Some ''ds''\<rparr>"






text \<open>An \<open>INSERT\<close> statement.\<close>

definition is_insert :: "string \<Rightarrow> bool" where
  "is_insert s = (take 11 s = ''INSERT INTO'')"

section \<open>Properties of the DBFS upload\<close>

lemma concat_chunks: "0 < n \<Longrightarrow> concat (chunks n xs) = xs"
proof (induction n xs rule: chunks.induct)
  case (1 n xs)
  then show ?case by (subst chunks.simps) auto
qed

lemma ceil_step:
  assumes "0 < n" "0 < m"
  shows "(m + n - 1) div n = Suc ((m - n + n - 1) div n)"
proof -
  have a: "m + n - 1 = (m - 1) + n" using assms by simp
  have "((m - 1) + n) div n = Suc ((m - 1) div n)"
    using assms(1) by (simp only: div_add_self2)
  then have l: "(m + n - 1) div n = Suc ((m - 1) div n)"
    using a by simp
  show ?thesis
  proof (cases "m \<le> n")
    case True
    then have "m - n + n - 1 = n - 1" "m - 1 < n" using assms by auto
    then show ?thesis using l assms by simp
  next
    case False
    then have "m - n + n - 1 = m - 1" by simp
    then show ?thesis using l by simp
  qed
qed

lemma length_chunks: "0 < n \<Longrightarrow> length (chunks n xs) = (length xs + n - 1) div n"
proof (induction n xs rule: chunks.induct)
  case (1 n xs)
  show ?case
  proof (cases "xs = []")
    case True
    with 1 show ?thesis by (subst chunks.simps) simp
  next
    case False
    have "length (chunks n xs) = Suc (length (chunks n (drop n xs)))"
      using False 1(2) by (subst chunks.simps) simp
    also have "\<dots> = Suc ((length xs - n + n - 1) div n)"
      using 1 False by simp
    also have "\<dots> = (length xs + n - 1) div n"
      using ceil_step [of n "length xs"] 1(2) False by simp
    finally show ?thesis .
  qed
qed

lemma chunks_sizes: "c \<in> set (chunks n xs) \<Longrightarrow> c \<noteq> [] \<and> length c \<le> n"
proof (induction n xs rule: chunks.induct)
  case (1 n xs)
  from 1(2) show ?case
    by (subst (asm) chunks.simps) (use 1(1) in \<open>auto split: if_splits\<close>)
qed

lemma chunks_full: "c \<in> set (butlast (chunks n xs)) \<Longrightarrow> length c = n"
proof (induction n xs rule: chunks.induct)
  case (1 n xs)
  show ?case
  proof (cases "n = 0 \<or> xs = []")
    case True
    with 1(2) show ?thesis by (subst (asm) chunks.simps) simp
  next
    case False
    then have e: "chunks n xs = take n xs # chunks n (drop n xs)"
      by (subst chunks.simps) simp
    show ?thesis
    proof (cases "chunks n (drop n xs) = []")
      case True
      with 1(2) e show ?thesis by simp
    next
      case ne: False
      then have "drop n xs \<noteq> []" by (subst (asm) chunks.simps) (auto split: if_splits)
      then have "length (take n xs) = n" by simp
      with 1 e ne False show ?thesis by auto
    qed
  qed
qed

lemma add_blocks_accepted:
  assumes "0 < cs" "accepts_all e"
  shows "\<exists>tr'. add_blocks e self h bs cs off tr = Some (Inr (), tr') \<and>
           http_posts tr' = http_posts tr @ map (add_block_request self h) (chunks cs (drop off bs))"
proof (induction "length bs - off" arbitrary: off tr rule: less_induct)
  case less
  show ?case
  proof (cases "off < length bs")
    case False
    then have "chunks cs (drop off bs) = []" by (subst chunks.simps) simp
    with False show ?thesis by (subst add_blocks.simps) simp
  next
    case True
    define tr1 where "tr1 = tr @ [add_block_request self h (take cs (drop off bs))]"
    define tr2 where "tr2 = tr1 @ [Log (Info_uploaded_bytes (min (off + cs) (length bs)) (length bs))]"
    obtain r where r: "http e tr1 = Inr r" "raise_for_status r = None"
      using assms(2) unfolding accepts_all_def by blast
    have step: "add_blocks e self h bs cs off tr = add_blocks e self h bs cs (off + cs) tr2"
      using True r
      by (subst add_blocks.simps) (simp add: post_def Let_def tr1_def tr2_def add_block_request_def)
    have "length bs - (off + cs) < length bs - off" using True assms(1) by simp
    from less [OF this, of tr2] obtain tr' where
      t: "add_blocks e self h bs cs (off + cs) tr2 = Some (Inr (), tr')"
         "http_posts tr' = http_posts tr2 @ map (add_block_request self h) (chunks cs (drop (off + cs) bs))"
      by blast
    have c: "chunks cs (drop off bs) = take cs (drop off bs) # chunks cs (drop (off + cs) bs)"
      using True assms(1) by (subst chunks.simps) (simp add: add.commute)
    have "http_posts tr2 = http_posts tr @ [add_block_request self h (take cs (drop off bs))]"
      by (simp add: http_posts_def tr2_def tr1_def add_block_request_def)
    with t c step show ?thesis by simp
  qed
qed





lemma dbfs_stream_upload_open_failed:
  assumes "created_handle e (tr @ [create_request self path]) = Inl x"
  shows "dbfs_stream_upload e self path bs cs tr = Some (Inl x, tr @ [create_request self path])"
  using assms
  by (auto simp: dbfs_stream_upload_def created_handle_def post_def Let_def create_request_def
      split: sum.splits option.splits)

lemma dbfs_stream_upload_opened:
  assumes "created_handle e (tr @ [create_request self path]) = Inr h"
  shows "dbfs_stream_upload e self path bs cs tr =
     (case stream_try e self h bs cs (tr @ [create_request self path]) of
        None \<Rightarrow> None
      | Some (Inr u, tr2) \<Rightarrow> Some (Inr (), tr2)
      | Some (Inl x, tr2) \<Rightarrow>
          (case http e (tr2 @ [close_request self h]) of
             Inl x' \<Rightarrow> Some (Inl x', tr2 @ [close_request self h])
           | Inr r \<Rightarrow> Some (Inl x, tr2 @ [close_request self h])))"
  using assms
  by (auto simp: dbfs_stream_upload_def created_handle_def post_def Let_def create_request_def
      close_request_def split: sum.splits option.splits)



text \<open>
  Claim C1. A payload of at most 1,048,576 bytes is sent by one put request and
  nothing else, whatever the service answers. For a longer payload, with a service
  that accepts every request and answers the create request with handle \<open>h\<close>, the
  upload succeeds and its HTTP requests are: the create request, one add-block
  request for each chunk of 1,048,576 bytes, in order, and the close request. The
  chunks concatenate to the payload, there are \<open>ceil(len(P) / 1048576)\<close> of them,
  none is empty or longer than the chunk size, and all but the last are full.
\<close>

theorem upload_bytes_protocol:
  fixes P :: "byte list"
  shows "(length P \<le> 1048576 \<longrightarrow>
            (\<exists>r. upload_bytes e self path P tr = Some (r, tr @ [put_request self path P]))) \<and>
         (1048576 < length P \<and> accepts_all e \<and>
            created_handle e (tr @ [create_request self path]) = Inr h \<longrightarrow>
            (\<exists>tr'. upload_bytes e self path P tr = Some (Inr (), tr') \<and>
               http_posts tr' = http_posts tr @ [create_request self path]
                  @ map (add_block_request self h) (chunks 1048576 P) @ [close_request self h])) \<and>
         concat (chunks 1048576 P) = P \<and>
         length (chunks 1048576 P) = (length P + 1048576 - 1) div 1048576 \<and>
         (\<forall>c \<in> set (chunks 1048576 P). c \<noteq> [] \<and> length c \<le> 1048576) \<and>
         (\<forall>c \<in> set (butlast (chunks 1048576 P)). length c = 1048576)"
proof (intro conjI impI ballI)
  assume "length P \<le> 1048576"
  then show "\<exists>r. upload_bytes e self path P tr = Some (r, tr @ [put_request self path P])"
    by (auto simp: upload_bytes_def dbfs_put_def post_def Let_def put_request_def
        split: sum.splits option.splits)
next
  assume a: "1048576 < length P \<and> accepts_all e \<and>
            created_handle e (tr @ [create_request self path]) = Inr h"
  let ?tr1 = "tr @ [create_request self path]"
  from a have acc: "accepts_all e" and h: "created_handle e ?tr1 = Inr h" by simp_all
  obtain tr2 where
    b: "add_blocks e self h P 1048576 0 ?tr1 = Some (Inr (), tr2)"
       "http_posts tr2 = http_posts ?tr1 @ map (add_block_request self h) (chunks 1048576 (drop 0 P))"
    using add_blocks_accepted [of 1048576 e self h P 0 ?tr1] acc by auto
  obtain r where r: "http e (tr2 @ [close_request self h]) = Inr r" "raise_for_status r = None"
    using acc unfolding accepts_all_def by blast
  have "stream_try e self h P 1048576 ?tr1 = Some (Inr (), tr2 @ [close_request self h])"
    using b(1) r by (simp add: stream_try_def post_def Let_def close_request_def)
  then have "dbfs_stream_upload e self path P 1048576 tr = Some (Inr (), tr2 @ [close_request self h])"
    by (simp add: dbfs_stream_upload_opened [OF h])
  moreover have "http_posts (tr2 @ [close_request self h]) =
      http_posts tr @ [create_request self path]
        @ map (add_block_request self h) (chunks 1048576 P) @ [close_request self h]"
    using b(2) by (simp add: http_posts_def close_request_def create_request_def)
  ultimately show "\<exists>tr'. upload_bytes e self path P tr = Some (Inr (), tr') \<and>
      http_posts tr' = http_posts tr @ [create_request self path]
        @ map (add_block_request self h) (chunks 1048576 P) @ [close_request self h]"
    using a by (simp add: upload_bytes_def)
next
  show "concat (chunks 1048576 P) = P" by (simp add: concat_chunks)
next
  show "length (chunks 1048576 P) = (length P + 1048576 - 1) div 1048576"
    by (rule length_chunks) simp
next
  fix c assume "c \<in> set (chunks 1048576 P)"
  then show "c \<noteq> []" "length c \<le> 1048576" using chunks_sizes by blast+
next
  fix c assume "c \<in> set (butlast (chunks 1048576 P))"
  then show "length c = 1048576" by (rule chunks_full)
qed

lemma accepts_all_accepting: "accepts_all (http_env accepting)"
  by (simp add: accepts_all_def http_env_def base_env_def accepting_def ok_response_def)

lemma created_handle_accepting: "created_handle (http_env accepting) t = Inr (JNum 7)"
  by (simp add: created_handle_def http_env_def base_env_def accepting_def ok_response_def)

text \<open>
  Claim C1 at a payload of three bytes and at one of 1,048,577 zero bytes, with the
  accepting service.
\<close>

theorem upload_bytes_protocol_witness:
  "(\<exists>r. upload_bytes (http_env accepting) example_uploader ''/f'' [1, 2, 3] []
        = Some (r, [] @ [put_request example_uploader ''/f'' [1, 2, 3]])) \<and>
   (\<exists>tr'. upload_bytes (http_env accepting) example_uploader ''/f'' (replicate 1048577 0) []
        = Some (Inr (), tr') \<and>
      http_posts tr' = http_posts [] @ [create_request example_uploader ''/f'']
        @ map (add_block_request example_uploader (JNum 7)) (chunks 1048576 (replicate 1048577 0))
        @ [close_request example_uploader (JNum 7)]) \<and>
   concat (chunks 1048576 (replicate 1048577 (0::byte))) = replicate 1048577 0"
proof -
  have small: "length [1, 2, 3 :: byte] \<le> 1048576" by simp
  have large: "1048576 < length (replicate 1048577 (0::byte))" by (simp only: length_replicate)
  note a = upload_bytes_protocol [of "[1, 2, 3]" "http_env accepting" example_uploader "''/f''" "[]" "JNum 7"]
  note b = upload_bytes_protocol [of "replicate 1048577 0" "http_env accepting" example_uploader "''/f''" "[]" "JNum 7"]
  from a small have 1: "\<exists>r. upload_bytes (http_env accepting) example_uploader ''/f'' [1, 2, 3] []
        = Some (r, [] @ [put_request example_uploader ''/f'' [1, 2, 3]])" by blast
  from b large accepts_all_accepting created_handle_accepting
  have 2: "\<exists>tr'. upload_bytes (http_env accepting) example_uploader ''/f'' (replicate 1048577 0) []
        = Some (Inr (), tr') \<and>
      http_posts tr' = http_posts [] @ [create_request example_uploader ''/f'']
        @ map (add_block_request example_uploader (JNum 7)) (chunks 1048576 (replicate 1048577 0))
        @ [close_request example_uploader (JNum 7)]" by blast
  from b have 3: "concat (chunks 1048576 (replicate 1048577 (0::byte))) = replicate 1048577 0" by blast
  from 1 2 3 show ?thesis by blast
qed





section \<open>Properties of the SQL writer\<close>

text \<open>Doubling the single quotes, character by character.\<close>

lemma str_replace_quote:
  "str_replace [CHR 0x27] [CHR 0x27, CHR 0x27] s =
     concat (map (\<lambda>c. if c = CHR 0x27 then [CHR 0x27, CHR 0x27] else [c]) s)"
  by (induction s) auto

text \<open>
  Claim C3. \<open>None\<close> is written \<open>NULL\<close>. A list or a dict is written as its JSON
  text, single quotes doubled, in single quotes; so is a numpy array, through
  \<open>tolist()\<close>. Of the scalars, one that \<open>pd.isna\<close> holds of (the float NaN, or
  \<open>NaT\<close>, \<open>NA\<close>) is written \<open>NULL\<close>; a bool is written \<open>TRUE\<close> or \<open>FALSE\<close>, although
  the numeric test would accept it too; an int or any other float is written as its
  \<open>str\<close>, unquoted; a string is written with its single quotes doubled, in single
  quotes; a value of any other class is written as its \<open>str\<close>, quoted the same way,
  also when \<open>pd.isna\<close> raises a \<open>ValueError\<close> or \<open>TypeError\<close> on it. The lists and
  dicts never reach \<open>pd.isna\<close>. The examples of the specification hold.
\<close>

theorem encode_value_cases:
  "encode_value PNone = Inr ''NULL'' \<and>
   encode_value (PList xs) = Inr (sql_quote (json_dumps (PList xs))) \<and>
   encode_value (PDict kvs) = Inr (sql_quote (json_dumps (PDict kvs))) \<and>
   encode_value (PNdarray xs r) = Inr (sql_quote (json_dumps (PList xs))) \<and>
   encode_value (PScalar (SBool b)) = Inr (if b then ''TRUE'' else ''FALSE'') \<and>
   isinstance_int_float (SBool b) \<and>
   encode_value (PScalar (SInt i)) = Inr (str_int i) \<and>
   encode_value (PScalar (SFloat r)) = Inr (if r = ''nan'' then ''NULL'' else r) \<and>
   encode_value (PScalar (SStr s)) = Inr (sql_quote s) \<and>
   encode_value (PScalar (SObject Isna_False s)) = Inr (sql_quote s) \<and>
   encode_value (PScalar (SObject Isna_True s)) = Inr ''NULL'' \<and>
   encode_value (PScalar (SObject (Isna_Raises (ValueError m)) s)) = Inr (sql_quote s) \<and>
   encode_value (PScalar (SObject (Isna_Raises (TypeError m)) s)) = Inr (sql_quote s) \<and>
   sql_quote s = [CHR 0x27]
      @ concat (map (\<lambda>c. if c = CHR 0x27 then [CHR 0x27, CHR 0x27] else [c]) s) @ [CHR 0x27] \<and>
   encode_value (PList [PScalar (SInt 1), PScalar (SInt 2)]) = Inr ([CHR 0x27] @ ''[1, 2]'' @ [CHR 0x27]) \<and>
   encode_value (PScalar (SStr ''a'b'')) = Inr ([CHR 0x27] @ ''a'' @ [CHR 0x27, CHR 0x27] @ ''b'' @ [CHR 0x27]) \<and>
   encode_value (PScalar (SBool True)) = Inr ''TRUE''"
  by (simp add: encode_scalar_def sql_quote_def str_replace_quote str_int_def str_nat.simps)

lemma statements_append [simp]: "statements (xs @ ys) = statements xs @ statements ys"
  by (induction xs rule: statements.induct) auto

lemma all_accepted_append:
  "all_accepted e tr (xs @ ys) = (all_accepted e tr xs \<and> all_accepted e (tr @ xs) ys)"
  by (induction e tr xs rule: all_accepted.induct) auto

lemma py_range_batches:
  assumes "0 < n"
  shows "map (\<lambda>start. take n (drop start xs)) (py_range (length xs) n) = chunks n xs"
proof -
  have "\<forall>xs. length xs = m \<longrightarrow> map (\<lambda>start. take n (drop start xs)) (py_range (length xs) n) = chunks n (xs::'a list)" for m
  proof (induction m rule: less_induct)
    case (less m)
    show ?case
    proof (intro allI impI)
      fix xs :: "'a list" assume l: "length xs = m"
      show "map (\<lambda>start. take n (drop start xs)) (py_range (length xs) n) = chunks n xs"
      proof (cases "xs = []")
        case True
        then show ?thesis using assms by (subst chunks.simps) (simp add: py_range_def)
      next
        case False
        let ?k = "(length xs + n - 1) div n"
        let ?ys = "drop n xs"
        have "0 < m" using False l by auto
        then have lt: "length ?ys < m" using l assms by simp
        have k: "?k = Suc ((length ?ys + n - 1) div n)"
          using ceil_step [of n "length xs"] assms False by simp
        have "py_range (length xs) n = 0 # map (\<lambda>s. s + n) (py_range (length ?ys) n)"
          unfolding py_range_def k
          by (simp add: upt_rec [of 0 "Suc _"] map_Suc_upt [symmetric] del: upt_Suc)
        then have "map (\<lambda>start. take n (drop start xs)) (py_range (length xs) n)
                 = take n xs # map (\<lambda>start. take n (drop start ?ys)) (py_range (length ?ys) n)"
          by (simp add: o_def add.commute)
        also have "\<dots> = take n xs # chunks n ?ys"
        proof -
          have "map (\<lambda>start. take n (drop start ?ys)) (py_range (length ?ys) n) = chunks n ?ys"
            using less [OF lt] by blast
          then show ?thesis by (simp only:)
        qed
        also have "\<dots> = chunks n xs" using False assms by (subst (2) chunks.simps) simp
        finally show ?thesis .
      qed
    qed
  qed
  then show ?thesis by simp
qed

lemma insert_batches_ok:
  assumes "insert_batches e ftn df n starts tr = (Inr u, tr')"
  shows "\<exists>vls evs. tr' = tr @ evs \<and>
           list_all2 (\<lambda>start vl. encode_rows (take n (drop start (rows df))) = Inr vl) starts vls \<and>
           statements evs = map (insert_sql_of ftn (columns df)) vls \<and>
           all_accepted e tr evs"
  using assms
proof (induction starts arbitrary: tr)
  case Nil
  then show ?case by (intro exI [of _ "[]"]) simp
next
  case (Cons start starts)
  let ?b = "take n (drop start (rows df))"
  from Cons.prems obtain vl where vl: "encode_rows ?b = Inr vl"
    by (auto simp: Let_def split: sum.splits)
  let ?ex = "SqlExecute (insert_sql_of ftn (columns df) vl)"
  let ?lg = "Log (Info_inserted_batch (start div n + 1) (length ?b))"
  from Cons.prems vl have acc: "sql_execute e (tr @ [?ex]) = None"
    and rest: "insert_batches e ftn df n starts (tr @ [?ex] @ [?lg]) = (Inr u, tr')"
    by (auto simp: Let_def execute_def split: option.splits)
  from Cons.IH [OF rest] obtain vls evs where
    r: "tr' = (tr @ [?ex] @ [?lg]) @ evs"
       "list_all2 (\<lambda>start vl. encode_rows (take n (drop start (rows df))) = Inr vl) starts vls"
       "statements evs = map (insert_sql_of ftn (columns df)) vls"
       "all_accepted e (tr @ [?ex] @ [?lg]) evs"
    by blast
  show ?case
    using r vl acc
    by (intro exI [of _ "vl # vls"] exI [of _ "?ex # ?lg # evs"]) simp
qed

lemma insert_batches_failed:
  assumes "insert_batches e ftn df n starts tr = (Inl x, tr')"
  shows "\<exists>k vls evs. k < length starts \<and> tr' = tr @ evs \<and>
           list_all2 (\<lambda>start vl. encode_rows (take n (drop start (rows df))) = Inr vl)
             (take k starts) vls \<and>
           ((statements evs = map (insert_sql_of ftn (columns df)) vls \<and>
             all_accepted e tr evs \<and>
             encode_rows (take n (drop (starts ! k) (rows df))) = Inl x)
            \<or>
            (\<exists>vl pre. encode_rows (take n (drop (starts ! k) (rows df))) = Inr vl \<and>
               evs = pre @ [SqlExecute (insert_sql_of ftn (columns df) vl)] \<and>
               statements pre = map (insert_sql_of ftn (columns df)) vls \<and>
               all_accepted e tr pre \<and>
               sql_execute e tr' = Some x))"
  using assms
proof (induction starts arbitrary: tr)
  case Nil
  then show ?case by simp
next
  case (Cons start starts)
  let ?b = "take n (drop start (rows df))"
  let ?P = "\<lambda>start vl. encode_rows (take n (drop start (rows df))) = Inr vl"
  show ?case
  proof (cases "encode_rows ?b")
    case (Inl y)
    with Cons.prems have "x = y" "tr' = tr" by (auto simp: Let_def)
    with Inl show ?thesis
      by (intro exI [of _ 0] exI [of _ "[]"]) simp
  next
    case (Inr vl)
    let ?ex = "SqlExecute (insert_sql_of ftn (columns df) vl)"
    let ?lg = "Log (Info_inserted_batch (start div n + 1) (length ?b))"
    show ?thesis
    proof (cases "sql_execute e (tr @ [?ex])")
      case (Some y)
      with Cons.prems Inr have "x = y" "tr' = tr @ [?ex]"
        by (auto simp: Let_def execute_def)
      with Inr Some show ?thesis
        by (intro exI [of _ 0] exI [of _ "[]"] exI [of _ "[?ex]"]) simp
    next
      case None
      with Cons.prems Inr
      have rest: "insert_batches e ftn df n starts (tr @ [?ex] @ [?lg]) = (Inl x, tr')"
        by (auto simp: Let_def execute_def)
      from Cons.IH [OF rest] obtain k vls evs where
        k: "k < length starts" and t: "tr' = (tr @ [?ex] @ [?lg]) @ evs" and
        l: "list_all2 ?P (take k starts) vls" and
        d: "(statements evs = map (insert_sql_of ftn (columns df)) vls \<and>
             all_accepted e (tr @ [?ex] @ [?lg]) evs \<and>
             encode_rows (take n (drop (starts ! k) (rows df))) = Inl x)
            \<or>
            (\<exists>vl pre. encode_rows (take n (drop (starts ! k) (rows df))) = Inr vl \<and>
               evs = pre @ [SqlExecute (insert_sql_of ftn (columns df) vl)] \<and>
               statements pre = map (insert_sql_of ftn (columns df)) vls \<and>
               all_accepted e (tr @ [?ex] @ [?lg]) pre \<and>
               sql_execute e tr' = Some x)"
        by blast
      from d show ?thesis
      proof
        assume a: "statements evs = map (insert_sql_of ftn (columns df)) vls \<and>
             all_accepted e (tr @ [?ex] @ [?lg]) evs \<and>
             encode_rows (take n (drop (starts ! k) (rows df))) = Inl x"
        show ?thesis
          using k t l a Inr None
          by (intro exI [of _ "Suc k"] exI [of _ "vl # vls"] exI [of _ "?ex # ?lg # evs"]) simp
      next
        assume "\<exists>vl pre. encode_rows (take n (drop (starts ! k) (rows df))) = Inr vl \<and>
               evs = pre @ [SqlExecute (insert_sql_of ftn (columns df) vl)] \<and>
               statements pre = map (insert_sql_of ftn (columns df)) vls \<and>
               all_accepted e (tr @ [?ex] @ [?lg]) pre \<and>
               sql_execute e tr' = Some x"
        then obtain vl' pre where
          b: "encode_rows (take n (drop (starts ! k) (rows df))) = Inr vl'"
             "evs = pre @ [SqlExecute (insert_sql_of ftn (columns df) vl')]"
             "statements pre = map (insert_sql_of ftn (columns df)) vls"
             "all_accepted e (tr @ [?ex] @ [?lg]) pre"
             "sql_execute e tr' = Some x"
          by blast
        have "\<exists>vl'' pre'. encode_rows (take n (drop ((start # starts) ! Suc k) (rows df))) = Inr vl'' \<and>
               ?ex # ?lg # evs = pre' @ [SqlExecute (insert_sql_of ftn (columns df) vl'')] \<and>
               statements pre' = map (insert_sql_of ftn (columns df)) (vl # vls) \<and>
               all_accepted e tr pre' \<and>
               sql_execute e tr' = Some x"
          using b None
          by (intro exI [of _ vl'] exI [of _ "?ex # ?lg # pre"]) simp
        then show ?thesis
          using k t l Inr
          by (intro exI [of _ "Suc k"] exI [of _ "vl # vls"] exI [of _ "?ex # ?lg # evs"]) simp
      qed
    qed
  qed
qed


lemma wsc_ddl_accepted:
  assumes "all_accepted e tr (ddl_events self df t mode)"
  shows "write_with_sql_connector e self df t mode tr =
     (if length (rows df) = 0
      then (Inr (), tr @ ddl_events self df t mode @ [Log Info_dataframe_empty])
      else
        (case insert_batches e (full_table_name_of self t) df batch_size
                (py_range (length (rows df)) batch_size) (tr @ ddl_events self df t mode) of
           (Inl x, tr4) \<Rightarrow> (Inl x, tr4)
         | (Inr u, tr4) \<Rightarrow>
             (Inr (), tr4 @ [Log (Info_wrote_rows (length (rows df)) (full_table_name_of self t))])))"
  using assms
  by (auto simp: write_with_sql_connector_def ddl_events_def connect_def execute_def Let_def
      connect_event_def drop_sql_def create_sql_def split: prod.splits sum.splits)

lemma wsc_ddl_rejected:
  assumes "\<not> all_accepted e tr (ddl_events self df t mode)"
  shows "\<exists>j x. 2 \<le> j \<and> j \<le> length (ddl_events self df t mode) \<and>
           write_with_sql_connector e self df t mode tr
             = (Inl x, tr @ take j (ddl_events self df t mode)) \<and>
           all_accepted e tr (take (j - 1) (ddl_events self df t mode)) \<and>
           (sql_connect e (tr @ take j (ddl_events self df t mode)) = Some x \<and> j = 2 \<or>
            sql_execute e (tr @ take j (ddl_events self df t mode)) = Some x \<and> 2 < j)"
proof (cases "sql_connect e (tr @ take 2 (ddl_events self df t mode))")
  case (Some x)
  then show ?thesis
    by (intro exI [of _ 2] exI [of _ x])
      (auto simp: write_with_sql_connector_def ddl_events_def connect_def execute_def Let_def
        connect_event_def)
next
  case None
  note c = None
  show ?thesis
  proof (cases "mode = ''overwrite''")
    case True
    show ?thesis
    proof (cases "sql_execute e (tr @ take 3 (ddl_events self df t mode))")
      case (Some x)
      then show ?thesis using c True
        by (intro exI [of _ 3] exI [of _ x])
          (auto simp: write_with_sql_connector_def ddl_events_def connect_def execute_def Let_def
            connect_event_def drop_sql_def)
    next
      case None
      with assms c True obtain x where
        "sql_execute e (tr @ take 4 (ddl_events self df t mode)) = Some x"
        by (auto simp: ddl_events_def connect_event_def)
      then show ?thesis using c True None
        by (intro exI [of _ 4] exI [of _ x])
          (auto simp: write_with_sql_connector_def ddl_events_def connect_def execute_def Let_def
            connect_event_def drop_sql_def create_sql_def)
    qed
  next
    case False
    with assms c obtain x where
      "sql_execute e (tr @ take 3 (ddl_events self df t mode)) = Some x"
      by (auto simp: ddl_events_def connect_event_def)
    then show ?thesis using c False
      by (intro exI [of _ 3] exI [of _ x])
        (auto simp: write_with_sql_connector_def ddl_events_def connect_def execute_def Let_def
          connect_event_def create_sql_def)
  qed
qed

lemma batches_starts:
  "map (\<lambda>start. take batch_size (drop start (rows df))) (py_range (length (rows df)) batch_size)
     = batches df"
  unfolding batches_def by (rule py_range_batches) (simp add: batch_size_def)

lemma conv_batches:
  "list_all2 (\<lambda>start vl. encode_rows (take batch_size (drop start (rows df))) = Inr vl)
       (take k (py_range (length (rows df)) batch_size)) vls
      = list_all2 (\<lambda>b vl. encode_rows b = Inr vl) (take k (batches df)) vls"
  by (simp only: batches_starts [symmetric] take_map list_all2_map1)

lemma length_starts: "length (py_range (length (rows df)) batch_size) = length (batches df)"
  by (metis batches_starts length_map)

lemma nth_batches:
  assumes "k < length (batches df)"
  shows "take batch_size (drop (py_range (length (rows df)) batch_size ! k) (rows df)) = batches df ! k"
proof -
  have "k < length (py_range (length (rows df)) batch_size)" using assms length_starts by simp
  then have "map (\<lambda>start. take batch_size (drop start (rows df))) (py_range (length (rows df)) batch_size) ! k
      = take batch_size (drop (py_range (length (rows df)) batch_size ! k) (rows df))"
    by (rule nth_map)
  then show ?thesis by (simp only: batches_starts)
qed

lemma batches_props:
  "concat (batches df) = rows df"
  "length (batches df) = (length (rows df) + 1000 - 1) div 1000"
  "b \<in> set (batches df) \<Longrightarrow> b \<noteq> [] \<and> length b \<le> 1000"
  "b \<in> set (butlast (batches df)) \<Longrightarrow> length b = 1000"
proof -
  show "concat (batches df) = rows df"
    unfolding batches_def batch_size_def by (rule concat_chunks) simp
  show "length (batches df) = (length (rows df) + 1000 - 1) div 1000"
    unfolding batches_def batch_size_def by (rule length_chunks) simp
  show "b \<in> set (batches df) \<Longrightarrow> b \<noteq> [] \<and> length b \<le> 1000"
    unfolding batches_def batch_size_def by (rule chunks_sizes)
  show "b \<in> set (butlast (batches df)) \<Longrightarrow> length b = 1000"
    unfolding batches_def batch_size_def by (rule chunks_full)
qed

lemma batches_empty: "rows df = [] \<Longrightarrow> batches df = []"
  unfolding batches_def by (subst chunks.simps) simp

lemma wsc_inserts:
  assumes "all_accepted e tr (ddl_events self df t mode)"
    and "write_with_sql_connector e self df t mode tr = (r, tr')"
  shows "(\<exists>k vls evs.
            tr' = tr @ ddl_events self df t mode @ evs \<and>
            k \<le> length (batches df) \<and>
            list_all2 (\<lambda>b vl. encode_rows b = Inr vl) (take k (batches df)) vls \<and>
            (case r of
               Inr u \<Rightarrow>
                 k = length (batches df) \<and>
                 statements evs = map (insert_sql_of (full_table_name_of self t) (columns df)) vls \<and>
                 all_accepted e (tr @ ddl_events self df t mode) evs
             | Inl x \<Rightarrow>
                 k < length (batches df) \<and>
                 ((statements evs = map (insert_sql_of (full_table_name_of self t) (columns df)) vls \<and>
                   all_accepted e (tr @ ddl_events self df t mode) evs \<and>
                   encode_rows (batches df ! k) = Inl x)
                  \<or>
                  (\<exists>vl pre.
                     encode_rows (batches df ! k) = Inr vl \<and>
                     evs = pre @ [SqlExecute (insert_sql_of (full_table_name_of self t) (columns df) vl)] \<and>
                     statements pre = map (insert_sql_of (full_table_name_of self t) (columns df)) vls \<and>
                     all_accepted e (tr @ ddl_events self df t mode) pre \<and>
                     sql_execute e tr' = Some x))))"
proof -
  let ?ddl = "ddl_events self df t mode"
  let ?ftn = "full_table_name_of self t"
  let ?starts = "py_range (length (rows df)) batch_size"
  let ?f = "\<lambda>start. take batch_size (drop start (rows df))"
  let ?ins = "insert_sql_of ?ftn (columns df)"
  have len: "length ?starts = length (batches df)" by (rule length_starts)
  note conv = conv_batches [of df]
  note nth = nth_batches [of _ df]
  show ?thesis
  proof (cases "length (rows df) = 0")
    case True
    then have "batches df = []" by (simp add: batches_empty)
    moreover from True assms have "r = Inr ()" "tr' = tr @ ?ddl @ [Log Info_dataframe_empty]"
      by (simp_all add: wsc_ddl_accepted)
    ultimately show ?thesis
      by (intro exI [of _ 0] exI [of _ "[]"] exI [of _ "[Log Info_dataframe_empty]"]) simp
  next
    case False
    obtain r4 tr4 where i: "insert_batches e ?ftn df batch_size ?starts (tr @ ?ddl) = (r4, tr4)"
      by (cases "insert_batches e ?ftn df batch_size ?starts (tr @ ?ddl)")
    show ?thesis
    proof (cases r4)
      case (Inl x)
      with i False assms have r: "r = Inl x" "tr' = tr4" by (simp_all add: wsc_ddl_accepted)
      from insert_batches_failed [OF i [unfolded Inl]] obtain k vls evs where
        k: "k < length ?starts" and t: "tr4 = (tr @ ?ddl) @ evs" and
        l: "list_all2 (\<lambda>start vl. encode_rows (?f start) = Inr vl) (take k ?starts) vls" and
        d: "(statements evs = map ?ins vls \<and> all_accepted e (tr @ ?ddl) evs \<and>
             encode_rows (?f (?starts ! k)) = Inl x)
            \<or>
            (\<exists>vl pre. encode_rows (?f (?starts ! k)) = Inr vl \<and>
               evs = pre @ [SqlExecute (?ins vl)] \<and>
               statements pre = map ?ins vls \<and>
               all_accepted e (tr @ ?ddl) pre \<and>
               sql_execute e tr4 = Some x)"
        by blast
      from k len have k': "k < length (batches df)" by simp
      show ?thesis
        using k' t l d r
        by (intro exI [of _ k] exI [of _ vls] exI [of _ evs]) (simp add: conv nth [OF k'])
    next
      case (Inr u)
      with i False assms have r: "r = Inr ()"
        "tr' = tr4 @ [Log (Info_wrote_rows (length (rows df)) ?ftn)]"
        by (simp_all add: wsc_ddl_accepted)
      from insert_batches_ok [OF i [unfolded Inr]] obtain vls evs where
        t: "tr4 = (tr @ ?ddl) @ evs" and
        l: "list_all2 (\<lambda>start vl. encode_rows (?f start) = Inr vl) ?starts vls" and
        s: "statements evs = map ?ins vls" and
        a: "all_accepted e (tr @ ?ddl) evs"
        by blast
      from l have l': "list_all2 (\<lambda>b vl. encode_rows b = Inr vl) (take (length (batches df)) (batches df)) vls"
        using conv [of "length ?starts" vls] len by simp
      show ?thesis
        using t l' s a r
        by (intro exI [of _ "length (batches df)"] exI [of _ vls]
            exI [of _ "evs @ [Log (Info_wrote_rows (length (rows df)) ?ftn)]"])
          (simp add: all_accepted_append)
    qed
  qed
qed

text \<open>
  Claim C4. The batches are the consecutive slices of 1000 rows: they concatenate to
  the rows, there are \<open>ceil(n / 1000)\<close> of them, none is empty and all but the last
  have 1000 rows. Once the connection, the \<open>DROP\<close> (in overwrite mode) and the
  \<open>CREATE\<close> have gone through, a run writes the first \<open>k\<close> batches, one \<open>INSERT\<close>
  statement for each, in order, each of them accepted. A run that succeeds has
  written all the batches. A run that fails has stopped at batch \<open>k + 1\<close>: either
  its rows could not be encoded and no statement was executed for it, or its
  \<open>INSERT\<close> is the last event of the trace and the error raised is the one of that
  statement. Nothing is executed after the failure, so the \<open>k\<close> accepted statements
  stand and no later batch is attempted.
\<close>

theorem write_rows_in_batches:
  assumes "all_accepted e tr (ddl_events self df t mode)"
    and "write_with_sql_connector e self df t mode tr = (r, tr')"
  shows "concat (batches df) = rows df \<and>
         length (batches df) = (length (rows df) + 1000 - 1) div 1000 \<and>
         (\<forall>b \<in> set (batches df). b \<noteq> [] \<and> length b \<le> 1000) \<and>
         (\<forall>b \<in> set (butlast (batches df)). length b = 1000) \<and>
         (\<exists>k vls evs.
            tr' = tr @ ddl_events self df t mode @ evs \<and>
            k \<le> length (batches df) \<and>
            list_all2 (\<lambda>b vl. encode_rows b = Inr vl) (take k (batches df)) vls \<and>
            (case r of
               Inr u \<Rightarrow>
                 k = length (batches df) \<and>
                 statements evs = map (insert_sql_of (full_table_name_of self t) (columns df)) vls \<and>
                 all_accepted e (tr @ ddl_events self df t mode) evs
             | Inl x \<Rightarrow>
                 k < length (batches df) \<and>
                 ((statements evs = map (insert_sql_of (full_table_name_of self t) (columns df)) vls \<and>
                   all_accepted e (tr @ ddl_events self df t mode) evs \<and>
                   encode_rows (batches df ! k) = Inl x)
                  \<or>
                  (\<exists>vl pre.
                     encode_rows (batches df ! k) = Inr vl \<and>
                     evs = pre @ [SqlExecute (insert_sql_of (full_table_name_of self t) (columns df) vl)] \<and>
                     statements pre = map (insert_sql_of (full_table_name_of self t) (columns df)) vls \<and>
                     all_accepted e (tr @ ddl_events self df t mode) pre \<and>
                     sql_execute e tr' = Some x))))"
  using batches_props(1) [of df] batches_props(2) [of df] batches_props(3) [of _ df]
    batches_props(4) [of _ df] wsc_inserts [OF assms]
  by (intro conjI ballI) blast+

lemma statements_ddl_events:
  "statements (ddl_events self df t mode) = ddl_statements self df t mode"
  by (simp add: ddl_events_def ddl_statements_def connect_event_def)

lemma statements_take_ddl_events:
  "2 \<le> j \<Longrightarrow> statements (take j (ddl_events self df t mode)) = take (j - 2) (ddl_statements self df t mode)"
  by (cases "j - 2") (auto simp: ddl_events_def ddl_statements_def connect_event_def take_Cons' numeral_2_eq_2 split: nat.splits)

lemma wsc_statements:
  assumes "write_with_sql_connector e self df t mode tr = (r, tr')"
  shows "\<exists>j vls. statements tr' = statements tr @ take j (ddl_statements self df t mode)
            @ map (insert_sql_of (full_table_name_of self t) (columns df)) vls \<and>
          length vls \<le> length (batches df) \<and>
          (r = Inr () \<or> vls \<noteq> [] \<longrightarrow> j = length (ddl_statements self df t mode))"
proof (cases "all_accepted e tr (ddl_events self df t mode)")
  case False
  from wsc_ddl_rejected [OF False] assms obtain j x where
    j: "2 \<le> j" "tr' = tr @ take j (ddl_events self df t mode)" "r = Inl x"
    by auto
  then show ?thesis
    by (intro exI [of _ "j - 2"] exI [of _ "[]"]) (simp add: statements_take_ddl_events)
next
  case True
  from wsc_inserts [OF True assms] obtain k vls evs where
    t: "tr' = tr @ ddl_events self df t mode @ evs" and
    k: "k \<le> length (batches df)" and
    l: "list_all2 (\<lambda>b vl. encode_rows b = Inr vl) (take k (batches df)) vls" and
    c: "case r of
               Inr u \<Rightarrow>
                 k = length (batches df) \<and>
                 statements evs = map (insert_sql_of (full_table_name_of self t) (columns df)) vls \<and>
                 all_accepted e (tr @ ddl_events self df t mode) evs
             | Inl x \<Rightarrow>
                 k < length (batches df) \<and>
                 ((statements evs = map (insert_sql_of (full_table_name_of self t) (columns df)) vls \<and>
                   all_accepted e (tr @ ddl_events self df t mode) evs \<and>
                   encode_rows (batches df ! k) = Inl x)
                  \<or>
                  (\<exists>vl pre.
                     encode_rows (batches df ! k) = Inr vl \<and>
                     evs = pre @ [SqlExecute (insert_sql_of (full_table_name_of self t) (columns df) vl)] \<and>
                     statements pre = map (insert_sql_of (full_table_name_of self t) (columns df)) vls \<and>
                     all_accepted e (tr @ ddl_events self df t mode) pre \<and>
                     sql_execute e tr' = Some x))"
    by blast
  from l k have lv: "length vls = k" by (auto dest: list_all2_lengthD)
  have "\<exists>vls'. statements evs = map (insert_sql_of (full_table_name_of self t) (columns df)) vls'
          \<and> length vls' \<le> length (batches df)"
  proof (cases r)
    case (Inr u)
    with c lv k show ?thesis by auto
  next
    case (Inl x)
    with c have kl: "k < length (batches df)" by simp
    from c Inl consider
      (enc) "statements evs = map (insert_sql_of (full_table_name_of self t) (columns df)) vls"
    | (exe) vl pre where
        "evs = pre @ [SqlExecute (insert_sql_of (full_table_name_of self t) (columns df) vl)]"
        "statements pre = map (insert_sql_of (full_table_name_of self t) (columns df)) vls"
      by auto
    then show ?thesis
    proof cases
      case enc
      with lv k show ?thesis by auto
    next
      case exe
      then have "statements evs = map (insert_sql_of (full_table_name_of self t) (columns df)) (vls @ [vl])"
        by simp
      moreover have "length (vls @ [vl]) \<le> length (batches df)" using lv kl by simp
      ultimately show ?thesis by blast
    qed
  qed
  then obtain vls' where
    "statements evs = map (insert_sql_of (full_table_name_of self t) (columns df)) vls'"
    "length vls' \<le> length (batches df)" by blast
  with t show ?thesis
    by (intro exI [of _ "length (ddl_statements self df t mode)"] exI [of _ vls'])
      (simp add: statements_ddl_events)
qed



lemma add_blocks_statements:
  assumes "add_blocks e self h bs cs off tr = Some y"
  shows "statements (snd y) = statements tr"
  using assms
proof (induction e self h bs cs off tr y rule: add_blocks.raw_induct [rotated 1, consumes 1])
  case (1 add_blocks e self handle file_bytes chunk_size offset tr ea)
  show ?case
  proof (cases "offset < length file_bytes")
    case False
    with 1(2) show ?thesis by auto
  next
    case True
    let ?req = "HttpPost (host self @ ''/api/2.0/dbfs/add-block'') (headers self)
                  [(''handle'', handle),
                   (''data'', JStr (standard_b64encode (take chunk_size (drop offset file_bytes))))]"
    let ?lg = "Log (Info_uploaded_bytes (min (offset + chunk_size) (length file_bytes)) (length file_bytes))"
    from 1(2) True consider
      (stop) "snd ea = tr @ [?req]"
    | (go) "add_blocks e self handle file_bytes chunk_size (offset + chunk_size) (tr @ [?req] @ [?lg]) = Some ea"
      by (auto simp: post_def Let_def split: sum.splits option.splits)
    then show ?thesis
    proof cases
      case stop
      then show ?thesis by simp
    next
      case go
      from 1(1) [OF go] show ?thesis by simp
    qed
  qed
qed

lemma upload_bytes_statements:
  assumes "upload_bytes e self path bs tr = Some (r, tr')"
  shows "statements tr' = statements tr"
proof (cases "length bs \<le> 1048576")
  case True
  with assms show ?thesis
    by (auto simp: upload_bytes_def dbfs_put_def post_def Let_def split: sum.splits option.splits)
next
  case False
  with assms have s: "dbfs_stream_upload e self path bs 1048576 tr = Some (r, tr')"
    by (simp add: upload_bytes_def)
  let ?tr1 = "tr @ [create_request self path]"
  show ?thesis
  proof (cases "created_handle e ?tr1")
    case (Inl x)
    with s have "tr' = ?tr1" by (simp add: dbfs_stream_upload_open_failed)
    then show ?thesis by (simp add: create_request_def)
  next
    case (Inr h)
    from s obtain r2 tr2 where st: "stream_try e self h bs 1048576 ?tr1 = Some (r2, tr2)"
      and t: "tr' = tr2 \<or> tr' = tr2 @ [close_request self h]"
      by (auto simp: dbfs_stream_upload_opened [OF Inr] split: option.splits sum.splits)
    from st obtain r1 tr1 where a: "add_blocks e self h bs 1048576 0 ?tr1 = Some (r1, tr1)"
      and t2: "tr2 = tr1 \<or> tr2 = tr1 @ [close_request self h]"
      by (auto simp: stream_try_def post_def Let_def close_request_def split: option.splits sum.splits)
    from add_blocks_statements [OF a] have "statements tr1 = statements tr"
      by (simp add: create_request_def)
    with t t2 show ?thesis by (auto simp: close_request_def)
  qed
qed

lemma delta_statements_overwrite:
  assumes "delta_statements e ftn sp ''overwrite'' tr = (r, tr')"
  shows "\<exists>sts. statements tr' = statements tr @ sts \<and> sts \<noteq> [] \<and>
           hd sts = ''DROP TABLE IF EXISTS '' @ ftn"
  using assms
  by (auto simp: delta_statements_def execute_def Let_def split: option.splits)

lemma delta_statements_append:
  assumes "delta_statements e ftn sp ''append'' tr = (r, tr')"
  shows "\<exists>sts. statements tr' = statements tr @ sts \<and> (\<forall>s \<in> set sts. \<not> is_drop s)"
  using assms
  by (auto simp: delta_statements_def execute_def Let_def is_drop_def create_parquet_sql_def
      insert_parquet_sql_def split: option.splits)

lemma delta_statements_success_nonempty:
  assumes "delta_statements e ftn sp mode tr = (Inr u, tr')"
  shows "statements tr' \<noteq> statements tr"
  using assms
  by (auto simp: delta_statements_def execute_def Let_def split: option.splits if_splits)

lemma upload_to_delta_table_cases:
  assumes "upload_to_delta_table e self df t mode tr = Some (r, tr')"
  shows "(statements tr' = statements tr \<and> (\<exists>x. r = Inl x)) \<or>
         (\<exists>tr3. statements tr3 = statements tr \<and>
            delta_statements e (full_table_name_of self t)
              (''/FileStore/staging/'' @ t @ ''.parquet'') mode tr3 = (r, tr'))"
proof (cases "to_parquet e df")
  case (Inl x)
  with assms show ?thesis by (auto simp: upload_to_delta_table_def Let_def)
next
  case (Inr bs)
  let ?sp = "''/FileStore/staging/'' @ t @ ''.parquet''"
  let ?tr1 = "tr @ [Log (Info_writing_delta (length (rows df)) (full_table_name_of self t) mode)]
                @ [Log Info_uploading_staging]"
  from assms Inr obtain r2 tr2 where u: "upload_bytes e self ?sp bs ?tr1 = Some (r2, tr2)"
    by (auto simp: upload_to_delta_table_def Let_def split: option.splits)
  from upload_bytes_statements [OF u] have s2: "statements tr2 = statements tr" by simp
  show ?thesis
  proof (cases r2)
    case (Inl x)
    with assms Inr u s2 show ?thesis by (auto simp: upload_to_delta_table_def Let_def)
  next
    case r2: (Inr u2)
    show ?thesis
    proof (cases "sql_connect e (tr2 @ [connect_event self])")
      case (Some x)
      with assms Inr u r2 s2 show ?thesis
        by (auto simp: upload_to_delta_table_def Let_def connect_def connect_event_def)
    next
      case None
      with assms Inr u r2
      have "delta_statements e (full_table_name_of self t) ?sp mode (tr2 @ [connect_event self]) = (r, tr')"
        by (auto simp: upload_to_delta_table_def Let_def connect_def connect_event_def)
      moreover have "statements (tr2 @ [connect_event self]) = statements tr"
        using s2 by (simp add: connect_event_def)
      ultimately show ?thesis by blast
    qed
  qed
qed



lemma delta_drop_discipline:
  assumes "upload_to_delta_table e self df t mode tr = Some (r, tr')"
  shows "\<exists>sts. statements tr' = statements tr @ sts \<and>
           (mode = ''overwrite'' \<longrightarrow>
              (sts = [] \<or> hd sts = drop_sql self t) \<and> (r = Inr () \<longrightarrow> sts \<noteq> [])) \<and>
           (mode = ''append'' \<longrightarrow> (\<forall>s \<in> set sts. \<not> is_drop s))"
proof -
  let ?sp = "''/FileStore/staging/'' @ t @ ''.parquet''"
  let ?ftn = "full_table_name_of self t"
  from upload_to_delta_table_cases [OF assms] show ?thesis
  proof
    assume "statements tr' = statements tr \<and> (\<exists>x. r = Inl x)"
    then show ?thesis by (intro exI [of _ "[]"]) auto
  next
    assume "\<exists>tr3. statements tr3 = statements tr \<and> delta_statements e ?ftn ?sp mode tr3 = (r, tr')"
    then obtain tr3 where t3: "statements tr3 = statements tr"
      and d: "delta_statements e ?ftn ?sp mode tr3 = (r, tr')" by blast
    show ?thesis
    proof (cases "mode = ''overwrite''")
      case True
      from delta_statements_overwrite [OF d [unfolded True]] t3 True show ?thesis
        by (auto simp: drop_sql_def)
    next
      case False
      show ?thesis
      proof (cases "mode = ''append''")
        case True
        from delta_statements_append [OF d [unfolded True]] t3 True show ?thesis by auto
      next
        case na: False
        with False d have "tr' = tr3" by (auto simp: delta_statements_def)
        with t3 False na show ?thesis by (intro exI [of _ "[]"]) simp
      qed
    qed
  qed
qed
















lemma example_ddl_events:
  "ddl_events example_uploader example_df ''t'' ''overwrite'' =
     [Log (Info_writing_sql_insert 2 ''cat.sch.t''), SqlConnect ''dbx'' ''/sql/1'' ''tok'',
      SqlExecute ''DROP TABLE IF EXISTS cat.sch.t'',
      SqlExecute ''CREATE TABLE IF NOT EXISTS cat.sch.t (`id` BIGINT, `name` STRING)'']"
  by (simp add: ddl_events_def example_uploader_def example_df_def full_table_name_of_def
      connect_event_def drop_sql_def create_sql_def pandas_to_sql_type_def)

lemma example_run_overwrite:
  "write_with_sql_connector base_env example_uploader example_df ''t'' ''overwrite'' [] =
     (Inr (),
      [] @ ddl_events example_uploader example_df ''t'' ''overwrite'' @
      [SqlExecute example_insert, Log (Info_inserted_batch 1 2),
       Log (Info_wrote_rows 2 ''cat.sch.t'')])"
  unfolding example_ddl_events
  by (simp add: write_with_sql_connector_def connect_def execute_def Let_def
      base_env_def example_uploader_def example_df_def full_table_name_of_def
      pandas_to_sql_type_def batch_size_def py_range_def insert_sql_of_def encode_scalar_def
      sql_quote_def str_int_def str_nat.simps example_insert_def)

lemma example_run_insert_fails:
  "write_with_sql_connector (sql_env (failing_statement 3)) example_uploader example_df ''t''
       ''overwrite'' [] =
     (Inl database_error,
      [] @ ddl_events example_uploader example_df ''t'' ''overwrite'' @
      [SqlExecute example_insert])"
  unfolding example_ddl_events
  by (simp add: write_with_sql_connector_def connect_def execute_def Let_def
      sql_env_def failing_statement_def
      base_env_def example_uploader_def example_df_def full_table_name_of_def
      pandas_to_sql_type_def batch_size_def py_range_def insert_sql_of_def encode_scalar_def
      sql_quote_def str_int_def str_nat.simps example_insert_def)

lemma example_ddl_accepted:
  "all_accepted base_env [] (ddl_events example_uploader example_df ''t'' ''overwrite'')"
  "all_accepted (sql_env (failing_statement 3)) []
     (ddl_events example_uploader example_df ''t'' ''overwrite'')"
  by (simp_all add: example_ddl_events base_env_def sql_env_def failing_statement_def)

lemma example_batches: "batches example_df = [rows example_df]"
  unfolding batches_def batch_size_def
  by (subst chunks.simps, simp add: example_df_def, subst chunks.simps, simp)

text \<open>
  Claim C4 at the example DataFrame in overwrite mode: with a service that accepts
  every statement, and with one that rejects the third statement, the \<open>INSERT\<close>.
\<close>

theorem write_rows_in_batches_witness:
  "(\<exists>k vls evs.
      [] @ ddl_events example_uploader example_df ''t'' ''overwrite'' @
        [SqlExecute example_insert, Log (Info_inserted_batch 1 2),
         Log (Info_wrote_rows 2 ''cat.sch.t'')]
        = [] @ ddl_events example_uploader example_df ''t'' ''overwrite'' @ evs \<and>
      k \<le> length (batches example_df) \<and>
      list_all2 (\<lambda>b vl. encode_rows b = Inr vl) (take k (batches example_df)) vls \<and>
      k = length (batches example_df) \<and>
      statements evs
        = map (insert_sql_of (full_table_name_of example_uploader ''t'') (columns example_df)) vls \<and>
      all_accepted base_env ([] @ ddl_events example_uploader example_df ''t'' ''overwrite'') evs) \<and>
   (\<exists>k vls evs.
      [] @ ddl_events example_uploader example_df ''t'' ''overwrite'' @ [SqlExecute example_insert]
        = [] @ ddl_events example_uploader example_df ''t'' ''overwrite'' @ evs \<and>
      k \<le> length (batches example_df) \<and>
      list_all2 (\<lambda>b vl. encode_rows b = Inr vl) (take k (batches example_df)) vls \<and>
      k < length (batches example_df))"
proof -
  note ok = write_rows_in_batches [OF example_ddl_accepted(1) example_run_overwrite,
      unfolded sum.case]
  note failed = write_rows_in_batches [OF example_ddl_accepted(2) example_run_insert_fails,
      unfolded sum.case]
  from ok failed show ?thesis by blast
qed







lemma length_ddl_events:
  "length (ddl_events self df t mode) = (if mode = ''overwrite'' then 4 else 3)"
  by (simp add: ddl_events_def)

lemma wsc_ddl_statements_executed:
  assumes c: "sql_connect e (tr @ take 2 (ddl_events self df t mode)) = None"
    and d: "mode = ''overwrite'' \<longrightarrow> sql_execute e (tr @ take 3 (ddl_events self df t mode)) = None"
    and r: "length (rows df) = 0"
    and w: "write_with_sql_connector e self df t mode tr = (r, tr')"
  shows "statements tr' = statements tr @ ddl_statements self df t mode"
proof (cases "all_accepted e tr (ddl_events self df t mode)")
  case True
  with r w have "tr' = tr @ ddl_events self df t mode @ [Log Info_dataframe_empty]"
    by (simp add: wsc_ddl_accepted)
  then show ?thesis by (simp add: statements_ddl_events)
next
  case False
  from wsc_ddl_rejected [OF False] w obtain j x where
    j: "2 \<le> j" "j \<le> length (ddl_events self df t mode)"
       "tr' = tr @ take j (ddl_events self df t mode)"
       "sql_connect e (tr @ take j (ddl_events self df t mode)) = Some x \<and> j = 2 \<or>
        sql_execute e (tr @ take j (ddl_events self df t mode)) = Some x \<and> 2 < j"
    by auto
  from j(4) c have j2: "2 < j" "sql_execute e (tr @ take j (ddl_events self df t mode)) = Some x"
    by auto
  have "j = length (ddl_events self df t mode)"
  proof (cases "mode = ''overwrite''")
    case True
    with d j2 have "j \<noteq> 3" by auto
    with j2 j(2) True show ?thesis by (simp add: length_ddl_events)
  next
    case False
    with j2 j(2) show ?thesis by (simp add: length_ddl_events)
  qed
  with j(3) show ?thesis by (simp add: statements_ddl_events)
qed

text \<open>
  Claim C10. For a DataFrame without rows: when the connection and the statements
  go through, \<open>write_with_sql_connector\<close> returns after the log record, the
  connection, the \<open>DROP\<close> (in overwrite mode), the \<open>CREATE\<close> and the log record of
  the empty DataFrame; and whenever the connection opens and, in overwrite mode, the
  \<open>DROP\<close> is accepted, the statements executed are exactly \<open>DROP TABLE IF EXISTS\<close>
  (in overwrite mode) and \<open>CREATE TABLE IF NOT EXISTS\<close>.
\<close>

theorem empty_dataframe_still_runs_ddl:
  "length (rows df) = 0 \<longrightarrow>
     (all_accepted e tr (ddl_events self df t mode) \<longrightarrow>
        write_with_sql_connector e self df t mode tr
          = (Inr (), tr @ ddl_events self df t mode @ [Log Info_dataframe_empty])) \<and>
     (\<forall>r tr'.
        sql_connect e (tr @ take 2 (ddl_events self df t mode)) = None \<and>
        (mode = ''overwrite'' \<longrightarrow>
           sql_execute e (tr @ take 3 (ddl_events self df t mode)) = None) \<and>
        write_with_sql_connector e self df t mode tr = (r, tr') \<longrightarrow>
        statements tr' = statements tr @ ddl_statements self df t mode) \<and>
     statements (ddl_events self df t mode) = ddl_statements self df t mode \<and>
     ddl_statements self df t mode =
       (if mode = ''overwrite'' then [drop_sql self t, create_sql self df t]
        else [create_sql self df t])"
  using wsc_ddl_statements_executed [of e tr self df t mode]
  by (auto simp: wsc_ddl_accepted statements_ddl_events ddl_statements_def)

lemma empty_ddl_events:
  "ddl_events example_uploader empty_df ''t'' ''overwrite'' =
     [Log (Info_writing_sql_insert 0 ''cat.sch.t''), SqlConnect ''dbx'' ''/sql/1'' ''tok'',
      SqlExecute ''DROP TABLE IF EXISTS cat.sch.t'',
      SqlExecute ''CREATE TABLE IF NOT EXISTS cat.sch.t (`id` BIGINT, `name` STRING)'']"
  by (simp add: ddl_events_def example_uploader_def empty_df_def full_table_name_of_def
      connect_event_def drop_sql_def create_sql_def pandas_to_sql_type_def)

text \<open>Claim C10 at the empty example DataFrame, in overwrite mode.\<close>

theorem empty_dataframe_still_runs_ddl_witness:
  "write_with_sql_connector base_env example_uploader empty_df ''t'' ''overwrite'' []
     = (Inr (),
        [] @ [Log (Info_writing_sql_insert 0 ''cat.sch.t''), SqlConnect ''dbx'' ''/sql/1'' ''tok'',
              SqlExecute ''DROP TABLE IF EXISTS cat.sch.t'',
              SqlExecute ''CREATE TABLE IF NOT EXISTS cat.sch.t (`id` BIGINT, `name` STRING)'']
           @ [Log Info_dataframe_empty]) \<and>
   ddl_statements example_uploader empty_df ''t'' ''overwrite''
     = [drop_sql example_uploader ''t'', create_sql example_uploader empty_df ''t'']"
proof -
  have e: "length (rows empty_df) = 0" by (simp add: empty_df_def)
  have a: "all_accepted base_env [] (ddl_events example_uploader empty_df ''t'' ''overwrite'')"
    by (simp add: empty_ddl_events base_env_def)
  note t = empty_dataframe_still_runs_ddl [of empty_df base_env "[]" example_uploader "''t''"
      "''overwrite''", rule_format, OF e]
  from t a have "write_with_sql_connector base_env example_uploader empty_df ''t'' ''overwrite'' []
     = (Inr (), [] @ ddl_events example_uploader empty_df ''t'' ''overwrite''
          @ [Log Info_dataframe_empty])"
    by blast
  moreover from t have "ddl_statements example_uploader empty_df ''t'' ''overwrite''
     = (if ''overwrite'' = ''overwrite''
        then [drop_sql example_uploader ''t'', create_sql example_uploader empty_df ''t'']
        else [create_sql example_uploader empty_df ''t''])"
    by blast
  ultimately show ?thesis by (simp add: empty_ddl_events)
qed

text \<open>
  Claim C6 at the mode \<open>upsert\<close>: \<open>write_with_sql_connector\<close> raises nothing and
  writes the rows as in append mode; \<open>upload_to_delta_table\<close> raises its
  \<open>ValueError\<close> after the staging file has been put on DBFS and the connection has
  been opened.
\<close>

theorem invalid_mode_is_not_rejected_early:
  "write_with_sql_connector base_env example_uploader example_df ''t'' ''upsert'' [] =
     (Inr (),
      [Log (Info_writing_sql_insert 2 ''cat.sch.t''), SqlConnect ''dbx'' ''/sql/1'' ''tok'',
       SqlExecute ''CREATE TABLE IF NOT EXISTS cat.sch.t (`id` BIGINT, `name` STRING)'',
       SqlExecute example_insert, Log (Info_inserted_batch 1 2),
       Log (Info_wrote_rows 2 ''cat.sch.t'')]) \<and>
   upload_to_delta_table base_env example_uploader example_df ''t'' ''upsert'' [] =
     Some (Inl (ValueError ''Invalid mode: upsert. Use 'overwrite' or 'append'.''),
       [Log (Info_writing_delta 2 ''cat.sch.t'' ''upsert''), Log Info_uploading_staging,
        put_request example_uploader ''/FileStore/staging/t.parquet'' [],
        SqlConnect ''dbx'' ''/sql/1'' ''tok''])"
  by (simp add: write_with_sql_connector_def connect_def execute_def Let_def
      base_env_def example_uploader_def example_df_def full_table_name_of_def
      pandas_to_sql_type_def batch_size_def py_range_def insert_sql_of_def encode_scalar_def
      sql_quote_def str_int_def str_nat.simps example_insert_def
      upload_to_delta_table_def upload_bytes_def dbfs_put_def post_def delta_statements_def
      put_request_def ok_response_def)

text \<open>Any mode other than \<open>overwrite\<close> is treated as \<open>append\<close> by \<open>write_with_sql_connector\<close>.\<close>

lemma wsc_mode_only_overwrite:
  "mode \<noteq> ''overwrite'' \<Longrightarrow>
     write_with_sql_connector e self df t mode tr = write_with_sql_connector e self df t ''append'' tr"
  by (auto simp: write_with_sql_connector_def Let_def split: prod.splits option.splits)

section \<open>Properties of the batch runner\<close>

lemma queries_append [simp]: "queries (xs @ ys) = queries xs @ queries ys"
  by (induction xs rule: queries.induct) auto


lemma extract_table_unfold:
  "extract_table e ex t None (tr @ [Log Info_extracting]) =
     (case bq_query e (tr @ query_events ex t) of
        Inr df \<Rightarrow> (Inr df, tr @ query_events ex t @ [Log (Info_query_completed (length (rows df)))])
      | Inl x \<Rightarrow> (Inl x, tr @ query_events ex t @ [Log (Error_query_failed (exn_str x))]))"
  by (simp add: extract_table_def extract_by_query_def Let_def table_query_def query_events_def
      split: sum.splits)











lemma ddl_not_insert: "s \<in> set (ddl_statements up df t mode) \<Longrightarrow> \<not> is_insert s"
  by (auto simp: ddl_statements_def is_insert_def drop_sql_def create_sql_def split: if_splits)

lemma wsc_empty_statements:
  assumes "length (rows df) = 0" "write_with_sql_connector e up df t mode tr = (r, tr')"
  shows "\<exists>j. statements tr' = statements tr @ take j (ddl_statements up df t mode)"
proof -
  from assms(1) have "batches df = []" by (simp add: batches_empty)
  with wsc_statements [OF assms(2)] show ?thesis by auto
qed

lemma try_table_empty:
  assumes "bq_query e (tr @ query_events ex t) = Inr df" "length (rows df) = 0"
  shows "try_table e ex up t tr =
     (Inr (), tr @ query_events ex t @
        [Log (Info_query_completed 0), Log (Info_extracted 0 (length (columns df))),
         Log Info_skip_empty])"
  using assms by (simp add: try_table_def extract_table_unfold Let_def)

text \<open>
  Claim C9. For a DataFrame without rows, \<open>write_with_sql_connector\<close> executes
  nothing but statements of its \<open>DROP\<close>/\<open>CREATE\<close> prefix, none of which is an
  \<open>INSERT\<close>, and returns without an error when the connection and these statements
  go through. In the loop of \<open>main\<close>, a table whose query returns no rows is logged
  as skipped and counted as a success, and between its query and the next table
  there are only log records: the uploader is not invoked.
\<close>

theorem empty_dataset_is_skipped:
  "(\<forall>r tr'. length (rows df) = 0 \<and> write_with_sql_connector e up df t mode tr = (r, tr') \<longrightarrow>
      (\<exists>j. statements tr' = statements tr @ take j (ddl_statements up df t mode)) \<and>
      (all_accepted e tr (ddl_events up df t mode) \<longrightarrow> r = Inr ())) \<and>
   (\<forall>s \<in> set (ddl_statements up df t mode). \<not> is_insert s) \<and>
   (bq_query e (tr @ [Log Info_dashes, Log (Info_processing i n t)] @ query_events ex t) = Inr df \<and>
    length (rows df) = 0 \<longrightarrow>
      try_table e ex up t (tr @ [Log Info_dashes, Log (Info_processing i n t)]) =
        (Inr (), tr @ [Log Info_dashes, Log (Info_processing i n t)] @ query_events ex t @
           [Log (Info_query_completed 0), Log (Info_extracted 0 (length (columns df))),
            Log Info_skip_empty]) \<and>
      process_tables e ex up n i (t # ts) rep tr =
        process_tables e ex up n (i + 1) ts (rep\<lparr>success_count := success_count rep + 1\<rparr>)
          (tr @ [Log Info_dashes, Log (Info_processing i n t)] @ query_events ex t @
           [Log (Info_query_completed 0), Log (Info_extracted 0 (length (columns df))),
            Log Info_skip_empty]))"
proof (intro conjI allI impI ballI)
  fix r tr'
  assume a: "length (rows df) = 0 \<and> write_with_sql_connector e up df t mode tr = (r, tr')"
  then show "\<exists>j. statements tr' = statements tr @ take j (ddl_statements up df t mode)"
    using wsc_empty_statements by blast
  assume "all_accepted e tr (ddl_events up df t mode)"
  with a show "r = Inr ()" by (auto simp: wsc_ddl_accepted)
next
  fix s assume "s \<in> set (ddl_statements up df t mode)"
  then show "\<not> is_insert s" by (rule ddl_not_insert)
next
  let ?tr0 = "tr @ [Log Info_dashes, Log (Info_processing i n t)]"
  assume a: "bq_query e (tr @ [Log Info_dashes, Log (Info_processing i n t)] @ query_events ex t) = Inr df \<and>
    length (rows df) = 0"
  then have tt: "try_table e ex up t ?tr0 =
        (Inr (), ?tr0 @ query_events ex t @
           [Log (Info_query_completed 0), Log (Info_extracted 0 (length (columns df))),
            Log Info_skip_empty])"
    using try_table_empty [of e ?tr0 ex t df up] by simp
  then show "try_table e ex up t (tr @ [Log Info_dashes, Log (Info_processing i n t)]) =
        (Inr (), tr @ [Log Info_dashes, Log (Info_processing i n t)] @ query_events ex t @
           [Log (Info_query_completed 0), Log (Info_extracted 0 (length (columns df))),
            Log Info_skip_empty])" by simp
  from tt show "process_tables e ex up n i (t # ts) rep tr =
        process_tables e ex up n (i + 1) ts (rep\<lparr>success_count := success_count rep + 1\<rparr>)
          (tr @ [Log Info_dashes, Log (Info_processing i n t)] @ query_events ex t @
           [Log (Info_query_completed 0), Log (Info_extracted 0 (length (columns df))),
            Log Info_skip_empty])" by simp
qed

text \<open>
  The column names. \<open>sanitize\<close> leaves only letters, digits and underscores, no
  underscore at either end, and is idempotent.
\<close>

lemma last_dropWhile_keep:
  "xs \<noteq> [] \<Longrightarrow> \<not> P (last xs) \<Longrightarrow> dropWhile P xs \<noteq> [] \<and> last (dropWhile P xs) = last xs"
  by (induction xs) (auto split: if_splits)

lemma rstrip_edge: "rstrip c s = [] \<or> last (rstrip c s) \<noteq> c"
proof (cases "dropWhile (\<lambda>x. x = c) (rev s) = []")
  case True
  then show ?thesis by (simp add: rstrip_def)
next
  case False
  then have "hd (dropWhile (\<lambda>x. x = c) (rev s)) \<noteq> c" using hd_dropWhile [of "\<lambda>x. x = c" "rev s"] by simp
  with False show ?thesis by (simp add: rstrip_def last_rev)
qed

lemma strip_edges:
  "strip c s = [] \<or> (hd (strip c s) \<noteq> c \<and> last (strip c s) \<noteq> c)"
proof (cases "strip c s = []")
  case True
  then show ?thesis by simp
next
  case False
  then have r: "rstrip c s \<noteq> []" by (auto simp: strip_def)
  with rstrip_edge [of c s] have l: "last (rstrip c s) \<noteq> c" by simp
  from last_dropWhile_keep [of "rstrip c s" "\<lambda>x. x = c"] r l
  have "last (strip c s) \<noteq> c" by (simp add: strip_def)
  moreover from False have "hd (strip c s) \<noteq> c"
    using hd_dropWhile [of "\<lambda>x. x = c" "rstrip c s"] by (simp add: strip_def)
  ultimately show ?thesis by simp
qed

lemma strip_fixed:
  assumes "u = [] \<or> (hd u \<noteq> c \<and> last u \<noteq> c)"
  shows "strip c u = u"
proof (cases "u = []")
  case True
  then show ?thesis by (simp add: strip_def rstrip_def)
next
  case False
  with assms have h: "hd u \<noteq> c" and l: "last u \<noteq> c" by simp_all
  from False l have "dropWhile (\<lambda>x. x = c) (rev u) = rev u"
    by (cases "rev u") (auto simp: last_rev [symmetric] hd_rev)
  then have "rstrip c u = u" by (simp add: rstrip_def)
  moreover from False h have "dropWhile (\<lambda>x. x = c) u = u" by (cases u) auto
  ultimately show ?thesis by (simp add: strip_def)
qed

lemma set_strip: "set (strip c s) \<subseteq> set s"
proof -
  have "set (rstrip c s) \<subseteq> set s"
    unfolding rstrip_def using set_dropWhileD [of _ "\<lambda>x. x = c" "rev s"] by auto
  moreover have "set (strip c s) \<subseteq> set (rstrip c s)"
    unfolding strip_def using set_dropWhileD [of _ "\<lambda>x. x = c" "rstrip c s"] by auto
  ultimately show ?thesis by blast
qed

lemma sanitize_word_chars: "ch \<in> set (sanitize col) \<Longrightarrow> word_char ch"
proof -
  assume "ch \<in> set (sanitize col)"
  then have "ch \<in> set (map (\<lambda>c. if word_char c then c else CHR ''_'') col)"
    using set_strip unfolding sanitize_def by blast
  then show ?thesis by (auto simp: word_char_def)
qed

lemma sanitize_edges:
  "sanitize col = [] \<or> (hd (sanitize col) \<noteq> CHR ''_'' \<and> last (sanitize col) \<noteq> CHR ''_'')"
  unfolding sanitize_def by (rule strip_edges)

lemma sanitize_idempotent: "sanitize (sanitize col) = sanitize col"
proof -
  have "map (\<lambda>c. if word_char c then c else CHR ''_'') (sanitize col) = sanitize col"
    using sanitize_word_chars by (intro map_idI) simp
  then have "sanitize (sanitize col) = strip (CHR ''_'') (sanitize col)"
    by (simp add: sanitize_def)
  also have "\<dots> = sanitize col" using sanitize_edges by (rule strip_fixed)
  finally show ?thesis .
qed

text \<open>
  Claim C8 fails on the code: the renaming of duplicates gives the second \<open>a\<close> the
  name \<open>a_1\<close> and leaves the column that is already called \<open>a_1\<close> as it is, so two
  columns end with the same name; and two names that sanitize to the empty string
  give the name \<open>_1\<close>, which starts with an underscore.
\<close>

theorem sanitize_columns_keeps_duplicates:
  "sanitize_columns [''a'', ''a'', ''a_1''] = [''a'', ''a_1'', ''a_1''] \<and>
   \<not> distinct (sanitize_columns [''a'', ''a'', ''a_1'']) \<and>
   sanitize_columns [''!'', ''?''] = ['''', ''_1'']"
  by (simp add: sanitize_columns_def sanitize_def strip_def rstrip_def word_char_def str_nat.simps)

text \<open>The run of the writer on the empty example DataFrame.\<close>

lemma example_run_empty:
  "write_with_sql_connector base_env example_uploader empty_df ''t'' ''overwrite'' [] =
     (Inr (),
      [Log (Info_writing_sql_insert 0 ''cat.sch.t''), SqlConnect ''dbx'' ''/sql/1'' ''tok'',
       SqlExecute ''DROP TABLE IF EXISTS cat.sch.t'',
       SqlExecute ''CREATE TABLE IF NOT EXISTS cat.sch.t (`id` BIGINT, `name` STRING)'',
       Log Info_dataframe_empty])"
  by (simp add: write_with_sql_connector_def connect_def execute_def Let_def
      base_env_def example_uploader_def empty_df_def full_table_name_of_def
      pandas_to_sql_type_def)

text \<open>
  Claim C9 at the empty example DataFrame, and at a table whose query returns a
  DataFrame without rows.
\<close>

theorem empty_dataset_is_skipped_witness:
  "(\<exists>j. statements
           [Log (Info_writing_sql_insert 0 ''cat.sch.t''), SqlConnect ''dbx'' ''/sql/1'' ''tok'',
            SqlExecute ''DROP TABLE IF EXISTS cat.sch.t'',
            SqlExecute ''CREATE TABLE IF NOT EXISTS cat.sch.t (`id` BIGINT, `name` STRING)'',
            Log Info_dataframe_empty]
         = statements [] @ take j (ddl_statements example_uploader empty_df ''t'' ''overwrite'')) \<and>
   try_table base_env example_extractor example_uploader ''A''
       ([] @ [Log Info_dashes, Log (Info_processing 1 1 ''A'')]) =
     (Inr (), [] @ [Log Info_dashes, Log (Info_processing 1 1 ''A'')]
        @ query_events example_extractor ''A'' @
        [Log (Info_query_completed 0),
         Log (Info_extracted 0 (length (columns \<lparr>columns = [], dtypes = [], rows = []\<rparr>))),
         Log Info_skip_empty])"
proof -
  have e: "length (rows empty_df) = 0" by (simp add: empty_df_def)
  note w = empty_dataset_is_skipped [where df = empty_df and e = base_env
      and up = example_uploader and t = "''t''" and mode = "''overwrite''" and tr = "[]",
      THEN conjunct1, rule_format,
      OF conjI, OF e example_run_empty, THEN conjunct1]
  have q: "bq_query base_env ([] @ [Log Info_dashes, Log (Info_processing 1 1 ''A'')]
             @ query_events example_extractor ''A'')
           = Inr \<lparr>columns = [], dtypes = [], rows = []\<rparr> \<and>
           length (rows \<lparr>columns = [], dtypes = [], rows = []\<rparr>) = 0"
    by (simp add: base_env_def)
  note t = empty_dataset_is_skipped [where df = "\<lparr>columns = [], dtypes = [], rows = []\<rparr>"
      and e = base_env and up = example_uploader and t = "''A''" and tr = "[]" and i = 1
      and n = 1 and ex = example_extractor,
      THEN conjunct2, THEN conjunct2, rule_format, OF q, THEN conjunct1]
  from w t show ?thesis by (rule conjI)
qed

end
